theory Spec2Isabelle
  imports Complex_Main "HOL-Library.Sublist" "HOL-Library.AList"
begin

section \<open>Strings and numbers of the host language\<close>

text \<open>
  A TypeScript \<open>string\<close> is modelled as a \<open>string\<close> whose characters are the code points
  below 256 (Latin-1); a \<open>number\<close> that carries a score is modelled as an exact \<open>real\<close>
  (rounding of IEEE doubles is not modelled), a count or an index as \<open>nat\<close> or \<open>int\<close>.
\<close>

definition lowerChar :: "char \<Rightarrow> char" where
  "lowerChar c =
     (let n = (of_char c :: nat)
      in if (65 \<le> n \<and> n \<le> 90) \<or> (192 \<le> n \<and> n \<le> 222 \<and> n \<noteq> 215)
         then char_of (n + 32) else c)"

definition toLowerCase :: "string \<Rightarrow> string" where
  "toLowerCase s = map lowerChar s"

definition includes_str :: "string \<Rightarrow> string \<Rightarrow> bool" where
  "includes_str s k = sublist k s"

definition startsWith :: "string \<Rightarrow> string \<Rightarrow> bool" where
  "startsWith s k = prefix k s"

definition endsWith :: "string \<Rightarrow> string \<Rightarrow> bool" where
  "endsWith s k = suffix k s"

text \<open>
  \<open>new Set(xs)\<close> spread back into an array: the distinct values of \<open>xs\<close> in the order of
  their first occurrence.
\<close>

definition Set_add :: "'a list \<Rightarrow> 'a \<Rightarrow> 'a list" where
  "Set_add s x = (if x \<in> set s then s else s @ [x])"

definition new_Set :: "'a list \<Rightarrow> 'a list" where
  "new_Set xs = foldl Set_add [] xs"

section \<open>Data model (types/index.ts)\<close>

datatype ElementType =
  FUNCTION | CLASS | METHOD | PROPERTY | VARIABLE | INTERFACE | TYPE_ALIAS | ENUM | NAMESPACE

text \<open>\<open>TYPE_ALIAS\<close> is \<open>ElementType.TYPE\<close>.\<close>

datatype QueryIntent =
  FIND_FUNCTIONS | FIND_CLASSES | FIND_METHODS | FIND_VARIABLES | FIND_INTERFACES
  | FIND_TYPES | FIND_ALL

record Parameter =
  param_name :: string
  param_type :: "string option"
  param_optional :: "bool option"
  param_defaultValue :: "string option"

record CodeElement =
  name :: string
  etype :: ElementType
  signature :: "string option"
  description :: "string option"
  filePath :: string
  startLine :: int
  endLine :: int
  startColumn :: int
  endColumn :: int
  parameters :: "Parameter list option"
  returnType :: "string option"
  modifiers :: "string list option"
  context_text :: "string option"

record SearchQuery =
  query_text :: string
  intent :: QueryIntent
  query_keywords :: "string list"
  elementTypes :: "ElementType list"
  language :: "string option"

section \<open>Ranking engine: scoring (core/searchEngine.ts)\<close>

text \<open>\<open>normalize\<close>, the local closure of \<open>calculateScore\<close> and \<open>getMatchedKeywords\<close>.\<close>

definition normalize :: "bool \<Rightarrow> string \<Rightarrow> string" where
  "normalize caseSensitive s = (if caseSensitive then s else toLowerCase s)"

text \<open>\<open>x || ''\<close> for an optional string field.\<close>

definition or_empty :: "string option \<Rightarrow> string" where
  "or_empty x = (case x of None \<Rightarrow> [] | Some s \<Rightarrow> s)"

definition getNameMatchScore :: "string \<Rightarrow> string \<Rightarrow> real" where
  "getNameMatchScore elementName keyword =
     (if elementName = keyword then 1.5
      else if startsWith elementName keyword then 1.2
      else if endsWith elementName keyword then 0.8
      else if includes_str elementName keyword then 0.6
      else 0)"

text \<open>
  One iteration of the loop over the keywords; the pair is
  \<open>(baseScore, matchedKeywordsCount)\<close>.
\<close>

definition score_keyword ::
  "string \<Rightarrow> string \<Rightarrow> string \<Rightarrow> bool \<Rightarrow> real \<times> nat \<Rightarrow> string \<Rightarrow> real \<times> nat" where
  "score_keyword elementName elementSignature elementDescription caseSensitive acc keyword =
     (let normalizedKeyword = normalize caseSensitive keyword
      in if includes_str elementName normalizedKeyword
         then (fst acc + 1.5 * getNameMatchScore elementName normalizedKeyword, Suc (snd acc))
         else if includes_str elementSignature normalizedKeyword
         then (fst acc + 0.6, Suc (snd acc))
         else if includes_str elementDescription normalizedKeyword
         then (fst acc + 0.3, Suc (snd acc))
         else acc)"

definition score_loop :: "CodeElement \<Rightarrow> bool \<Rightarrow> string list \<Rightarrow> real \<times> nat" where
  "score_loop element caseSensitive kws =
     foldl (score_keyword (normalize caseSensitive (name element))
                          (normalize caseSensitive (or_empty (signature element)))
                          (normalize caseSensitive (or_empty (description element)))
                          caseSensitive)
           (0, 0) kws"

definition type_bonus :: "CodeElement \<Rightarrow> SearchQuery \<Rightarrow> real" where
  "type_bonus element query =
     (if intent query = FIND_FUNCTIONS \<and> etype element = FUNCTION then 0.2
      else if etype element \<in> set (elementTypes query) then 0.1
      else 0)"

definition calculateScore :: "CodeElement \<Rightarrow> SearchQuery \<Rightarrow> bool \<Rightarrow> real" where
  "calculateScore element query caseSensitive =
     (let kws = new_Set (query_keywords query)
      in if length kws = 0 then 0
         else
           let (baseScore, matchedKeywordsCount) = score_loop element caseSensitive kws
           in if matchedKeywordsCount = 0 then 0
              else
                let completenessFactor = real matchedKeywordsCount / real (length kws)
                in if length kws > 1 \<and> completenessFactor < 0.5 then 0
                   else
                     let finalScore = baseScore * (completenessFactor * completenessFactor)
                                      + type_bonus element query;
                         maxPossibleScore = (real (length kws) * 1.5 * 1.5) + 0.2
                     in min (finalScore / maxPossibleScore) 1.0)"

section \<open>Ranking engine: search (core/searchEngine.ts)\<close>

text \<open>
  A thrown exception is a value. \<open>SyntaxError\<close> is what \<open>new RegExp\<close> throws on a
  malformed pattern, \<open>SystemError\<close> what the \<open>fs\<close> calls throw, \<open>ParserError\<close> anything
  thrown while a file is parsed, \<open>RangeError\<close> what a call with more arguments than the
  engine accepts throws.
\<close>

datatype error =
  SyntaxError string | SystemError string | ParserError string | RangeError string

text \<open>
  \<open>Array.prototype.some\<close> and \<open>Array.prototype.filter\<close> with a callback that may throw:
  the callback runs left to right, \<open>some\<close> stops at the first \<open>true\<close>, and the first
  exception ends the whole call.
\<close>

fun some_e :: "('a \<Rightarrow> error + bool) \<Rightarrow> 'a list \<Rightarrow> error + bool" where
  "some_e p [] = Inr False"
| "some_e p (x # xs) =
     (case p x of Inl err \<Rightarrow> Inl err
      | Inr b \<Rightarrow> if b then Inr True else some_e p xs)"

fun filter_e :: "('a \<Rightarrow> error + bool) \<Rightarrow> 'a list \<Rightarrow> error + 'a list" where
  "filter_e p [] = Inr []"
| "filter_e p (x # xs) =
     (case p x of Inl err \<Rightarrow> Inl err
      | Inr b \<Rightarrow>
          (case filter_e p xs of Inl err \<Rightarrow> Inl err
           | Inr ys \<Rightarrow> Inr (if b then x # ys else ys)))"

text \<open>\<open>s.replace(/c/g, r)\<close> for a single character \<open>c\<close>.\<close>

definition replace_char :: "char \<Rightarrow> string \<Rightarrow> string \<Rightarrow> string" where
  "replace_char c r s = concat (map (\<lambda>x. if x = c then r else [x]) s)"

text \<open>\<open>xs.join(sep)\<close> on an array of strings.\<close>

fun join :: "string \<Rightarrow> string list \<Rightarrow> string" where
  "join sep [] = []"
| "join sep [x] = x"
| "join sep (x # y # ys) = x @ sep @ join sep (y # ys)"

text \<open>
  The decimal digits of a non-negative integer, and with them a count and an integer
  as a template string renders them.
\<close>

function show_digits :: "int \<Rightarrow> string" where
  "show_digits i =
     (if i < 10 then [char_of (48 + nat i)]
      else show_digits (i div 10) @ [char_of (48 + nat (i mod 10))])"
  by pat_completeness auto
termination
  by (relation "measure nat") auto

declare show_digits.simps [simp del]

definition show_nat :: "nat \<Rightarrow> string" where
  "show_nat n = show_digits (int n)"

definition show_int :: "int \<Rightarrow> string" where
  "show_int i = (if i < 0 then CHR ''-'' # show_digits (- i) else show_digits i)"

text \<open>
  \<open>xs.slice(0, n)\<close> for an integral \<open>n\<close>: a negative \<open>n\<close> counts from the end of the
  array.
\<close>

definition slice0 :: "'a list \<Rightarrow> int \<Rightarrow> 'a list" where
  "slice0 xs n = (if n < 0 then take (nat (int (length xs) + n)) xs else take (nat n) xs)"

record SearchResult =
  element :: CodeElement
  score :: real
  snippet :: string
  matchedKeywords :: "string list"
  relevanceReason :: string

record SearchOptions =
  maxResults :: "int option"
  threshold :: "real option"
  includeSnippets :: "bool option"
  caseSensitive :: "bool option"
  languages :: "string list option"
  filePatterns :: "string list option"

text \<open>A destructuring default: \<open>{ x = d } = options\<close>.\<close>

definition default_to :: "'a \<Rightarrow> 'a option \<Rightarrow> 'a" where
  "default_to d x = (case x of None \<Rightarrow> d | Some v \<Rightarrow> v)"

definition getMatchedKeywords :: "CodeElement \<Rightarrow> string list \<Rightarrow> bool \<Rightarrow> string list" where
  "getMatchedKeywords el kws caseSens =
     (let searchableText =
            join '' ''
              ([name el, or_empty (description el), or_empty (signature el)]
               @ (case parameters el of None \<Rightarrow> [] | Some ps \<Rightarrow> map param_name ps));
          normalizedSearchable = normalize caseSens searchableText
      in filter (\<lambda>keyword. includes_str normalizedSearchable (normalize caseSens keyword)) kws)"

definition getRelevanceReason :: "CodeElement \<Rightarrow> SearchQuery \<Rightarrow> string list \<Rightarrow> string" where
  "getRelevanceReason el query matched =
     (if length matched = 0 then ''General relevance match''
      else
        let totalKeywords = length (new_Set (query_keywords query))
        in ''Matches '' @ show_nat (length matched) @ '' of '' @ show_nat totalKeywords
           @ '' keywords: '' @ join '', '' matched)"

definition generateSnippet :: "CodeElement \<Rightarrow> string" where
  "generateSnippet el =
     (let lines1 =
            (if or_empty (description el) \<noteq> []
             then [''// '' @ takeWhile (\<lambda>c. c \<noteq> CHR 0x0A) (or_empty (description el))]
             else []);
          lines2 =
            lines1 @ [if or_empty (signature el) \<noteq> [] then or_empty (signature el) else name el]
      in join [CHR 0x0A] lines2)"

text \<open>
  The regular-expression engine is the host's: \<open>regexp_test src s\<close> stands for
  \<open>new RegExp(src).test(s)\<close>, which throws on a malformed \<open>src\<close>. It is a parameter of
  every function that builds a regular expression.
\<close>

type_synonym regexp_engine = "string \<Rightarrow> string \<Rightarrow> error + bool"

definition matchesPattern :: "regexp_engine \<Rightarrow> string \<Rightarrow> string \<Rightarrow> error + bool" where
  "matchesPattern regexp_test path pattern =
     (let regexPattern =
            replace_char (CHR ''?'') ''.''
              (replace_char (CHR ''*'') ''.*''
                (replace_char (CHR ''.'') [CHR 0x5C, CHR ''.''] pattern))
      in regexp_test (''^'' @ regexPattern @ ''$'') path)"

definition make_result :: "SearchQuery \<Rightarrow> bool \<Rightarrow> bool \<Rightarrow> CodeElement \<Rightarrow> SearchResult" where
  "make_result query inclSnippets caseSens el =
     (let matched = getMatchedKeywords el (query_keywords query) caseSens
      in \<lparr>element = el,
          score = calculateScore el query caseSens,
          snippet = (if inclSnippets then generateSnippet el else []),
          matchedKeywords = matched,
          relevanceReason = getRelevanceReason el query matched\<rparr>)"

text \<open>
  \<open>results.sort((a, b) => b.score - a.score)\<close>: the sort of an array is stable, so the
  result is the one stable arrangement by descending score.
\<close>

definition sort_by_score :: "SearchResult list \<Rightarrow> SearchResult list" where
  "sort_by_score rs = sort_key (\<lambda>r. - score r) rs"

definition search ::
  "regexp_engine \<Rightarrow> CodeElement list \<Rightarrow> SearchQuery \<Rightarrow> SearchOptions
     \<Rightarrow> error + SearchResult list" where
  "search regexp_test els query options =
     (let maxRes = default_to 50 (maxResults options);
          thresh = default_to 0.2 (threshold options);
          inclSnippets = default_to True (includeSnippets options);
          caseSens = default_to False (caseSensitive options);
          langs = default_to [] (languages options);
          patterns = default_to [] (filePatterns options);
          filtered1 =
            (if length (elementTypes query) > 0
             then filter (\<lambda>el. etype el \<in> set (elementTypes query)) els else els);
          filtered2 =
            (if length langs > 0
             then filter (\<lambda>el. list_ex (\<lambda>lang. endsWith (filePath el) (''.'' @ lang)) langs)
                    filtered1
             else filtered1)
      in case (if length patterns > 0
               then filter_e (\<lambda>el. some_e (matchesPattern regexp_test (filePath el)) patterns)
                      filtered2
               else Inr filtered2) of
           Inl err \<Rightarrow> Inl err
         | Inr filtered3 \<Rightarrow>
             Inr (slice0
                    (sort_by_score
                       (map (make_result query inclSnippets caseSens)
                          (filter (\<lambda>el. calculateScore el query caseSens \<ge> thresh) filtered3)))
                    maxRes))"

section \<open>Query interpreter (core/queryParser.ts)\<close>

definition FUNCTION_KEYWORDS :: "string list" where
  "FUNCTION_KEYWORDS =
     [''function'', ''functions'', ''method'', ''methods'', ''procedure'', ''procedures'',
      ''routine'', ''routines'', ''func'', ''def'', ''lambda'']"

definition CLASS_KEYWORDS :: "string list" where
  "CLASS_KEYWORDS =
     [''class'', ''classes'', ''object'', ''objects'', ''type'', ''types'',
      ''struct'', ''structs'', ''interface'', ''interfaces'']"

definition VARIABLE_KEYWORDS :: "string list" where
  "VARIABLE_KEYWORDS =
     [''variable'', ''variables'', ''var'', ''vars'', ''field'', ''fields'',
      ''property'', ''properties'', ''constant'', ''constants'', ''const'']"

definition ACTION_KEYWORDS :: "string list" where
  "ACTION_KEYWORDS =
     [''handle'', ''handles'', ''handling'', ''process'', ''processes'', ''processing'',
      ''manage'', ''manages'', ''managing'', ''deal'', ''deals'', ''dealing'',
      ''send'', ''sends'', ''sending'', ''receive'', ''receives'', ''receiving'',
      ''create'', ''creates'', ''creating'', ''delete'', ''deletes'', ''deleting'',
      ''update'', ''updates'', ''updating'', ''get'', ''gets'', ''getting'',
      ''set'', ''sets'', ''setting'', ''validate'', ''validates'', ''validating'',
      ''authenticate'', ''authenticates'', ''authenticating'', ''authorize'',
      ''authorizes'', ''authorizing'', ''connect'', ''connects'', ''connecting'',
      ''parse'', ''parses'', ''parsing'', ''format'', ''formats'', ''formatting'',
      ''calculate'', ''calculates'', ''calculating'', ''compute'', ''computes'',
      ''computing'', ''render'', ''renders'', ''rendering'', ''display'',
      ''displays'', ''displaying'', ''show'', ''shows'', ''showing'']"

definition DOMAIN_KEYWORDS :: "string list" where
  "DOMAIN_KEYWORDS =
     [''database'', ''db'', ''sql'', ''query'', ''queries'', ''table'', ''tables'',
      ''authentication'', ''auth'', ''login'', ''logout'', ''password'', ''token'',
      ''user'', ''users'', ''session'', ''sessions'', ''permission'', ''permissions'',
      ''email'', ''mail'', ''message'', ''messages'', ''notification'', ''notifications'',
      ''file'', ''files'', ''upload'', ''download'', ''storage'', ''cache'', ''caching'',
      ''api'', ''endpoint'', ''endpoints'', ''request'', ''requests'', ''response'',
      ''responses'', ''http'', ''https'', ''server'', ''client'', ''network'',
      ''validation'', ''validator'', ''error'', ''errors'', ''exception'', ''exceptions'',
      ''config'', ''configuration'', ''settings'', ''preferences'', ''options'',
      ''log'', ''logs'', ''logging'', ''debug'', ''debugging'', ''test'', ''tests'',
      ''testing'', ''mock'', ''mocks'', ''mocking'', ''util'', ''utils'', ''utility'',
      ''helper'', ''helpers'', ''service'', ''services'', ''controller'', ''controllers'',
      ''model'', ''models'', ''view'', ''views'', ''component'', ''components'']"

definition stopWords :: "string list" where
  "stopWords =
     [''that'', ''with'', ''for'', ''and'', ''or'', ''in'', ''on'', ''at'', ''to'', ''from'',
      ''the'', ''a'', ''an'', ''is'', ''are'', ''was'', ''were'', ''be'', ''been'', ''being'',
      ''have'', ''has'', ''had'', ''do'', ''does'', ''did'', ''will'', ''would'', ''could'',
      ''should'', ''may'', ''might'', ''must'', ''can'', ''all'', ''any'', ''some'', ''this'',
      ''these'', ''those'', ''my'', ''your'', ''his'', ''her'', ''its'', ''our'', ''their'']"

text \<open>
  The characters that \<open>trim\<close> strips and \<open>\s\<close> matches, among the code points below 256:
  tab, line feed, vertical tab, form feed, carriage return, space and no-break space.
\<close>

definition isWhiteSpace :: "char \<Rightarrow> bool" where
  "isWhiteSpace c =
     (let n = (of_char c :: nat)
      in n = 9 \<or> n = 10 \<or> n = 11 \<or> n = 12 \<or> n = 13 \<or> n = 32 \<or> n = 160)"

definition trim :: "string \<Rightarrow> string" where
  "trim s = rev (dropWhile isWhiteSpace (rev (dropWhile isWhiteSpace s)))"

text \<open>
  \<open>s.split(/\s+/)\<close>: the pieces between the maximal runs of white space; the first
  argument is the piece being read.
\<close>

function split_ws :: "string \<Rightarrow> string \<Rightarrow> string list" where
  "split_ws cur [] = [cur]"
| "split_ws cur (c # cs) =
     (if isWhiteSpace c then cur # split_ws [] (dropWhile isWhiteSpace cs)
      else split_ws (cur @ [c]) cs)"
  by pat_completeness auto
termination
  by (relation "measure (\<lambda>(cur, s). length s)")
     (auto simp: length_dropWhile_le less_Suc_eq_le)

definition normalizeQuery :: "string \<Rightarrow> string" where
  "normalizeQuery q = trim (toLowerCase q)"

definition tokenize :: "string \<Rightarrow> string list" where
  "tokenize q = filter (\<lambda>word. length word > 0) (split_ws [] q)"

definition determineIntent :: "string list \<Rightarrow> QueryIntent" where
  "determineIntent words =
     (let hasFunction = list_ex (\<lambda>word. word \<in> set FUNCTION_KEYWORDS) words;
          hasClass = list_ex (\<lambda>word. word \<in> set CLASS_KEYWORDS) words;
          hasVariable = list_ex (\<lambda>word. word \<in> set VARIABLE_KEYWORDS) words
      in if hasFunction \<and> \<not> hasClass \<and> \<not> hasVariable then FIND_FUNCTIONS
         else if hasClass \<and> \<not> hasFunction \<and> \<not> hasVariable then FIND_CLASSES
         else if hasVariable \<and> \<not> hasFunction \<and> \<not> hasClass then FIND_VARIABLES
         else if list_ex (\<lambda>word. word = ''interface'' \<or> word = ''interfaces'') words
         then FIND_INTERFACES
         else if list_ex (\<lambda>word. word = ''type'' \<or> word = ''types'') words then FIND_TYPES
         else FIND_ALL)"

fun extractElementTypes :: "string list \<Rightarrow> QueryIntent \<Rightarrow> ElementType list" where
  "extractElementTypes words FIND_FUNCTIONS = [FUNCTION, METHOD]"
| "extractElementTypes words FIND_CLASSES = [CLASS]"
| "extractElementTypes words FIND_VARIABLES = [VARIABLE, PROPERTY]"
| "extractElementTypes words FIND_INTERFACES = [INTERFACE]"
| "extractElementTypes words FIND_TYPES = [TYPE_ALIAS, INTERFACE]"
| "extractElementTypes words FIND_ALL =
     [FUNCTION, CLASS, METHOD, VARIABLE, PROPERTY, INTERFACE, TYPE_ALIAS]"
| "extractElementTypes words FIND_METHODS =
     [FUNCTION, CLASS, METHOD, VARIABLE, PROPERTY, INTERFACE, TYPE_ALIAS]"

definition isStopWord :: "string \<Rightarrow> bool" where
  "isStopWord word = (word \<in> set stopWords)"

text \<open>The body of the \<open>forEach\<close> of \<open>extractKeywords\<close>: up to three pushes per word.\<close>

definition push_keywords :: "string list \<Rightarrow> string \<Rightarrow> string list" where
  "push_keywords kws word =
     (let kws1 = (if word \<in> set ACTION_KEYWORDS then kws @ [word] else kws);
          kws2 = (if word \<in> set DOMAIN_KEYWORDS then kws1 @ [word] else kws1)
      in if word \<notin> set FUNCTION_KEYWORDS \<and> word \<notin> set CLASS_KEYWORDS
            \<and> word \<notin> set VARIABLE_KEYWORDS \<and> \<not> isStopWord word
         then kws2 @ [word] else kws2)"

definition extractKeywords :: "string list \<Rightarrow> string list" where
  "extractKeywords words = new_Set (foldl push_keywords [] words)"

definition parse :: "string \<Rightarrow> SearchQuery" where
  "parse queryText =
     (let normalizedQuery = normalizeQuery queryText;
          words = tokenize normalizedQuery;
          intent' = determineIntent words;
          elementTypes' = extractElementTypes words intent';
          keywords' = extractKeywords words
      in \<lparr>query_text = queryText, intent = intent', query_keywords = keywords',
          elementTypes = elementTypes', language = None\<rparr>)"

section \<open>Workspace index (utils/indexer.ts)\<close>

record Stats =
  st_size :: nat
  st_mtime :: int
  st_isDirectory :: bool
  st_isFile :: bool

datatype Severity = SeverityError | SeverityWarning

record ParseError =
  pe_message :: string
  pe_line :: int
  pe_column :: int
  pe_severity :: Severity

record ParsedFile =
  pf_filePath :: string
  pf_language :: string
  pf_elements :: "CodeElement list"
  pf_imports :: "string list"
  pf_exports :: "string list"
  pf_errors :: "ParseError list"

record FileIndex =
  fi_filePath :: string
  fi_language :: string
  fi_elements :: "CodeElement list"
  lastModified :: int
  hash :: string

text \<open>
  A \<open>Map\<close> is an association list in insertion order: \<open>set\<close> is \<open>AList.update\<close>
  (a present key keeps its place, a new key goes last), \<open>delete\<close> is \<open>AList.delete\<close>,
  \<open>get\<close> is \<open>map_of\<close>, \<open>values()\<close> is \<open>map snd\<close>.
\<close>

record WorkspaceIndex =
  files :: "(string \<times> FileIndex) list"
  elements :: "(string \<times> CodeElement list) list"
  lastUpdated :: int

record IndexerConfig =
  maxFileSize :: int
  excludePatterns :: "string list"
  includePatterns :: "string list"
  watchFiles :: bool
  cacheSize :: int

text \<open>
  What the indexer calls and does not define: the \<open>fs\<close> and \<open>path\<close> modules, the regular
  expression engine, the clock, and the parser of \<open>parsers/typescriptParser.ts\<close>, which is
  built on the TypeScript compiler and is taken here as a function from a path to a
  \<open>ParsedFile\<close> or a thrown error. One \<open>host\<close> is the state of the outside world during
  one call.
\<close>

record host =
  statSync :: "string \<Rightarrow> error + Stats"
  readFileSync :: "string \<Rightarrow> error + string"
  readdirSync :: "string \<Rightarrow> error + string list"
  parseFile :: "string \<Rightarrow> error + ParsedFile"
  host_regexp :: regexp_engine
  path_join :: "string \<Rightarrow> string \<Rightarrow> string"
  path_basename :: "string \<Rightarrow> string"
  path_extname :: "string \<Rightarrow> string"
  now :: int

text \<open>
  The fields of the class. \<open>parseCalls\<close> is not a field of the source: it counts the calls
  of \<open>parser.parseFile\<close>, so that "no parse happens" can be stated. \<open>fileWatcher\<close> holds
  the watched folder.
\<close>

record CodeIndexer =
  index :: WorkspaceIndex
  config :: IndexerConfig
  fileWatcher :: "string option"
  parseCalls :: nat

definition new_CodeIndexer :: "host \<Rightarrow> IndexerConfig \<Rightarrow> CodeIndexer" where
  "new_CodeIndexer h cfg =
     \<lparr>index = \<lparr>files = [], elements = [], lastUpdated = now h\<rparr>,
      config = cfg, fileWatcher = None, parseCalls = 0\<rparr>"

definition calculateFileHash :: "host \<Rightarrow> string \<Rightarrow> error + string" where
  "calculateFileHash h path =
     (case readFileSync h path of Inl err \<Rightarrow> Inl err
      | Inr content \<Rightarrow>
          (case statSync h path of Inl err \<Rightarrow> Inl err
           | Inr stats \<Rightarrow> Inr (show_int (st_mtime stats) @ ''-'' @ show_nat (length content))))"

text \<open>
  The \<open>try\<close> block of \<open>indexFile\<close>: the exception it ends with, if any, and the indexer
  as it is at that moment.
\<close>

definition indexFile_try :: "host \<Rightarrow> string \<Rightarrow> CodeIndexer \<Rightarrow> error option \<times> CodeIndexer" where
  "indexFile_try h path s =
     (case statSync h path of Inl err \<Rightarrow> (Some err, s)
      | Inr stats \<Rightarrow>
          (if int (st_size stats) > maxFileSize (config s) then (None, s)
           else
             (let existingIndex = map_of (files (index s)) path
              in (case calculateFileHash h path of Inl err \<Rightarrow> (Some err, s)
                  | Inr fileHash \<Rightarrow>
                      (if (case existingIndex of None \<Rightarrow> False
                           | Some fi \<Rightarrow> hash fi = fileHash)
                       then (None, s)
                       else
                         (let s1 = s\<lparr>parseCalls := Suc (parseCalls s)\<rparr>
                          in (case parseFile h path of Inl err \<Rightarrow> (Some err, s1)
                              | Inr parsedFile \<Rightarrow>
                                  (let fileIndex =
                                         \<lparr>fi_filePath = path,
                                          fi_language = pf_language parsedFile,
                                          fi_elements = pf_elements parsedFile,
                                          lastModified = st_mtime stats,
                                          hash = fileHash\<rparr>;
                                       idx = index s1;
                                       idx1 = idx\<lparr>files := AList.update path fileIndex (files idx)\<rparr>;
                                       idx2 = idx1\<lparr>elements :=
                                                AList.update path (pf_elements parsedFile)
                                                  (elements idx1)\<rparr>
                                   in (None, s1\<lparr>index := idx2\<rparr>)))))))))"

text \<open>
  \<open>indexFile\<close>: the \<open>catch\<close> clause logs the exception and the call returns; \<open>Inl\<close> would
  be an exception that leaves the call.
\<close>

definition indexFile :: "host \<Rightarrow> string \<Rightarrow> CodeIndexer \<Rightarrow> error + CodeIndexer" where
  "indexFile h path s =
     (case indexFile_try h path s of
        (None, s') \<Rightarrow> Inr s'
      | (Some err, s') \<Rightarrow> Inr s')"

definition removeFile :: "string \<Rightarrow> CodeIndexer \<Rightarrow> CodeIndexer" where
  "removeFile path s =
     s\<lparr>index := (index s)
          \<lparr>files := AList.delete path (files (index s)),
           elements := AList.delete path (elements (index s))\<rparr>\<rparr>"

text \<open>
  \<open>arr.push(...items)\<close> passes every item as an argument of one call. An engine accepts
  only so many arguments in a call (the number depends on the engine and on its stack);
  beyond that number the call throws. The number is a parameter, \<open>maxArguments\<close>.
\<close>

definition push_spread :: "nat \<Rightarrow> 'a list \<Rightarrow> 'a list \<Rightarrow> error + 'a list" where
  "push_spread maxArguments arr items =
     (if length items > maxArguments then Inl (RangeError ''Maximum call stack size exceeded'')
      else Inr (arr @ items))"

text \<open>The loop of \<open>getAllElements\<close> over \<open>elements.values()\<close>.\<close>

fun push_all :: "nat \<Rightarrow> 'a list \<Rightarrow> 'a list list \<Rightarrow> error + 'a list" where
  "push_all maxArguments allElements [] = Inr allElements"
| "push_all maxArguments allElements (els # rest) =
     (case push_spread maxArguments allElements els of Inl err \<Rightarrow> Inl err
      | Inr allElements' \<Rightarrow> push_all maxArguments allElements' rest)"

definition getAllElements :: "nat \<Rightarrow> CodeIndexer \<Rightarrow> error + CodeElement list" where
  "getAllElements maxArguments s = push_all maxArguments [] (map snd (elements (index s)))"

definition getElementsForFile :: "CodeIndexer \<Rightarrow> string \<Rightarrow> CodeElement list" where
  "getElementsForFile s path =
     (case map_of (elements (index s)) path of None \<Rightarrow> [] | Some els \<Rightarrow> els)"

definition getFileIndex :: "CodeIndexer \<Rightarrow> string \<Rightarrow> FileIndex option" where
  "getFileIndex s path = map_of (files (index s)) path"

record Statistics =
  totalFiles :: nat
  totalElements :: nat
  elementsByLanguage :: "(string \<times> nat) list"
  stats_lastUpdated :: int

text \<open>The body of the loop of \<open>getStatistics\<close> over \<open>files.values()\<close>.\<close>

definition count_file :: "nat \<times> (string \<times> nat) list \<Rightarrow> FileIndex \<Rightarrow> nat \<times> (string \<times> nat) list" where
  "count_file acc fileIndex =
     (let n = length (fi_elements fileIndex)
      in (fst acc + n,
          AList.update (fi_language fileIndex)
            (default_to 0 (map_of (snd acc) (fi_language fileIndex)) + n) (snd acc)))"

definition getStatistics :: "CodeIndexer \<Rightarrow> Statistics" where
  "getStatistics s =
     (let (total, byLanguage) = foldl count_file (0, []) (map snd (files (index s)))
      in \<lparr>totalFiles = length (files (index s)),
          totalElements = total,
          elementsByLanguage = byLanguage,
          stats_lastUpdated = lastUpdated (index s)\<rparr>)"

definition supportedExtensions :: "string list" where
  "supportedExtensions = [''.ts'', ''.tsx'', ''.js'', ''.jsx'', ''.py'']"

definition shouldExcludeDirectory :: "host \<Rightarrow> IndexerConfig \<Rightarrow> string \<Rightarrow> error + bool" where
  "shouldExcludeDirectory h cfg dirPath =
     (let dirName = path_basename h dirPath;
          patterns =
            [''node_modules'', ''.git'', ''.vscode'', ''dist'', ''build'', ''out'', ''coverage'',
             ''.nyc_output''] @ excludePatterns cfg
      in some_e (\<lambda>pattern.
            if includes_str pattern ''*''
            then host_regexp h (replace_char (CHR ''*'') ''.*'' pattern) dirPath
            else Inr (dirName = pattern \<or> includes_str dirPath pattern))
          patterns)"

definition shouldExcludeFile :: "host \<Rightarrow> IndexerConfig \<Rightarrow> string \<Rightarrow> error + bool" where
  "shouldExcludeFile h cfg path =
     (let fileName = path_basename h path;
          patterns =
            [''*.min.js'', ''*.d.ts'', ''*.test.ts'', ''*.spec.ts'', ''*.test.js'', ''*.spec.js'']
            @ excludePatterns cfg
      in some_e (\<lambda>pattern.
            if includes_str pattern ''*''
            then host_regexp h (replace_char (CHR ''*'') ''.*'' pattern) fileName
            else Inr (fileName = pattern))
          patterns)"

text \<open>
  \<open>traverse\<close>, the recursive closure of \<open>findCodeFiles\<close>, with the array \<open>files\<close> it
  pushes to passed along. A directory tree need not be finite (a link can point back
  up), so the recursion carries the depth it may still descend: \<open>None\<close> means that the
  depth was used up. \<open>traverse_items\<close> is the \<open>for\<close> loop inside the \<open>try\<close> block; an
  exception ends the loop and is caught and logged by \<open>traverse\<close>, which keeps what was
  pushed before.
\<close>

fun traverse :: "nat \<Rightarrow> host \<Rightarrow> IndexerConfig \<Rightarrow> string \<Rightarrow> string list \<Rightarrow> string list option"
  and traverse_items ::
    "nat \<Rightarrow> host \<Rightarrow> IndexerConfig \<Rightarrow> string \<Rightarrow> string list \<Rightarrow> string list
       \<Rightarrow> (error option \<times> string list) option" where
  "traverse 0 h cfg dir found = None"
| "traverse (Suc n) h cfg dir found =
     (case readdirSync h dir of Inl err \<Rightarrow> Some found
      | Inr items \<Rightarrow>
          (case traverse_items n h cfg dir items found of None \<Rightarrow> None
           | Some (thrown, found') \<Rightarrow> Some found'))"
| "traverse_items n h cfg dir [] found = Some (None, found)"
| "traverse_items n h cfg dir (item # items) found =
     (let itemPath = path_join h dir item
      in case statSync h itemPath of Inl err \<Rightarrow> Some (Some err, found)
         | Inr stats \<Rightarrow>
             if st_isDirectory stats then
               (case shouldExcludeDirectory h cfg itemPath of
                  Inl err \<Rightarrow> Some (Some err, found)
                | Inr excluded \<Rightarrow>
                    if excluded then traverse_items n h cfg dir items found
                    else
                      (case traverse n h cfg itemPath found of None \<Rightarrow> None
                       | Some found' \<Rightarrow> traverse_items n h cfg dir items found'))
             else if st_isFile stats then
               (let ext = toLowerCase (path_extname h item)
                in if ext \<in> set supportedExtensions then
                     (case shouldExcludeFile h cfg itemPath of
                        Inl err \<Rightarrow> Some (Some err, found)
                      | Inr excluded \<Rightarrow>
                          traverse_items n h cfg dir items
                            (if excluded then found else found @ [itemPath]))
                   else traverse_items n h cfg dir items found)
             else traverse_items n h cfg dir items found)"

definition findCodeFiles :: "nat \<Rightarrow> host \<Rightarrow> IndexerConfig \<Rightarrow> string \<Rightarrow> string list option" where
  "findCodeFiles depth h cfg rootPath = traverse depth h cfg rootPath []"

definition setupFileWatcher :: "string \<Rightarrow> CodeIndexer \<Rightarrow> CodeIndexer" where
  "setupFileWatcher workspaceFolder s = s\<lparr>fileWatcher := Some workspaceFolder\<rparr>"

text \<open>The \<open>for\<close> loop of \<open>indexWorkspace\<close>: an exception of \<open>indexFile\<close> would end it.\<close>

fun index_files :: "host \<Rightarrow> string list \<Rightarrow> CodeIndexer \<Rightarrow> error + CodeIndexer" where
  "index_files h [] s = Inr s"
| "index_files h (path # paths) s =
     (case indexFile h path s of Inl err \<Rightarrow> Inl err
      | Inr s' \<Rightarrow> index_files h paths s')"

definition indexWorkspace ::
  "nat \<Rightarrow> host \<Rightarrow> string \<Rightarrow> CodeIndexer \<Rightarrow> (error + CodeIndexer) option" where
  "indexWorkspace depth h workspaceFolder s =
     (case findCodeFiles depth h (config s) workspaceFolder of None \<Rightarrow> None
      | Some found \<Rightarrow>
          (case index_files h found s of Inl err \<Rightarrow> Some (Inl err)
           | Inr s1 \<Rightarrow>
               let s2 = (if watchFiles (config s1) then setupFileWatcher workspaceFolder s1
                         else s1)
               in Some (Inr (s2\<lparr>index := (index s2)\<lparr>lastUpdated := now h\<rparr>\<rparr>))))"

text \<open>
  A run of the indexer: the calls that reach it, from the host or from the file watcher
  (creation and change call \<open>indexFile\<close>, deletion calls \<open>removeFile\<close>), each
  \<open>indexFile\<close> with the state of the outside world at that moment.
\<close>

datatype index_op = IndexFile host string | RemoveFile string

fun apply_op :: "CodeIndexer \<Rightarrow> index_op \<Rightarrow> CodeIndexer" where
  "apply_op s (IndexFile h path) = (case indexFile h path s of Inl err \<Rightarrow> s | Inr s' \<Rightarrow> s')"
| "apply_op s (RemoveFile path) = removeFile path s"

definition run_ops :: "CodeIndexer \<Rightarrow> index_op list \<Rightarrow> CodeIndexer" where
  "run_ops s ops = foldl apply_op s ops"

section \<open>The score as the specification words it\<close>

text \<open>
  The definitions of this section follow the text of the specification, not the loop of
  \<open>calculateScore\<close>: whether a keyword is found in a declaration, what the first field
  that contains it contributes, the base score as a sum over the keywords, the
  completeness, the bonus and the normalised, clamped formula.
\<close>

definition keyword_found :: "CodeElement \<Rightarrow> bool \<Rightarrow> string \<Rightarrow> bool" where
  "keyword_found e cs k =
     (let nk = normalize cs k
      in includes_str (normalize cs (name e)) nk
         \<or> includes_str (normalize cs (or_empty (signature e))) nk
         \<or> includes_str (normalize cs (or_empty (description e))) nk)"

definition nameMatchScore_spec :: "string \<Rightarrow> string \<Rightarrow> real" where
  "nameMatchScore_spec n k =
     (if n = k then 1.5 else if prefix k n then 1.2 else if suffix k n then 0.8 else 0.6)"

definition keyword_contribution :: "CodeElement \<Rightarrow> bool \<Rightarrow> string \<Rightarrow> real" where
  "keyword_contribution e cs k =
     (let nk = normalize cs k
      in if includes_str (normalize cs (name e)) nk
         then 1.5 * nameMatchScore_spec (normalize cs (name e)) nk
         else if includes_str (normalize cs (or_empty (signature e))) nk then 0.6
         else if includes_str (normalize cs (or_empty (description e))) nk then 0.3
         else 0)"

definition base_score_spec :: "CodeElement \<Rightarrow> bool \<Rightarrow> string list \<Rightarrow> real" where
  "base_score_spec e cs kws = sum_list (map (keyword_contribution e cs) kws)"

definition matched_count :: "CodeElement \<Rightarrow> bool \<Rightarrow> string list \<Rightarrow> nat" where
  "matched_count e cs kws = length (filter (keyword_found e cs) kws)"

definition completeness :: "CodeElement \<Rightarrow> bool \<Rightarrow> string list \<Rightarrow> real" where
  "completeness e cs kws = real (matched_count e cs kws) / real (length kws)"

definition intent_bonus_spec :: "CodeElement \<Rightarrow> SearchQuery \<Rightarrow> real" where
  "intent_bonus_spec e q =
     (if intent q = FIND_FUNCTIONS \<and> etype e = FUNCTION then 0.2
      else if etype e \<in> set (elementTypes q) then 0.1 else 0)"

definition score_formula :: "CodeElement \<Rightarrow> SearchQuery \<Rightarrow> bool \<Rightarrow> real" where
  "score_formula e q cs =
     (let kws = new_Set (query_keywords q)
      in min ((base_score_spec e cs kws * (completeness e cs kws)\<^sup>2 + intent_bonus_spec e q)
              / (real (length kws) * 1.5 * 1.5 + 0.2)) 1)"

section \<open>The stages of search and the invariant of the index\<close>

text \<open>
  The two stages of \<open>search\<close> by name: the three filters, and the scoring, threshold
  and sort of what the filters leave.
\<close>

definition filtered_elements ::
  "regexp_engine \<Rightarrow> CodeElement list \<Rightarrow> SearchQuery \<Rightarrow> SearchOptions \<Rightarrow> error + CodeElement list" where
  "filtered_elements rt els q opts =
     (let langs = default_to [] (languages opts);
          patterns = default_to [] (filePatterns opts);
          filtered1 =
            (if length (elementTypes q) > 0
             then filter (\<lambda>el. etype el \<in> set (elementTypes q)) els else els);
          filtered2 =
            (if length langs > 0
             then filter (\<lambda>el. list_ex (\<lambda>lang. endsWith (filePath el) (''.'' @ lang)) langs)
                    filtered1
             else filtered1)
      in if length patterns > 0
         then filter_e (\<lambda>el. some_e (matchesPattern rt (filePath el)) patterns) filtered2
         else Inr filtered2)"

definition ranked_results :: "SearchQuery \<Rightarrow> SearchOptions \<Rightarrow> CodeElement list \<Rightarrow> SearchResult list" where
  "ranked_results q opts cands =
     sort_by_score
       (map (make_result q (default_to True (includeSnippets opts))
               (default_to False (caseSensitive opts)))
          (filter (\<lambda>el. default_to 0.2 (threshold opts)
                         \<le> calculateScore el q (default_to False (caseSensitive opts)))
             cands))"

text \<open>
  The two maps of the index are in step when the map of declaration lists is the map of
  file records with each record replaced by its declaration list, key by key and in the
  same order.
\<close>

definition in_sync :: "WorkspaceIndex \<Rightarrow> bool" where
  "in_sync idx = (elements idx = map (\<lambda>(p, fi). (p, fi_elements fi)) (files idx))"

text \<open>
  The traversal of \<open>findCodeFiles\<close> is given a depth. \<open>nests_within depth h dir\<close> says
  that the depth suffices for the directory \<open>dir\<close> of the host \<open>h\<close>: the directories
  below it nest fewer than \<open>depth\<close> levels deep (an entry that cannot be read or statted
  counts as a leaf).
\<close>

fun nests_within :: "nat \<Rightarrow> host \<Rightarrow> string \<Rightarrow> bool" where
  "nests_within 0 h dir = False"
| "nests_within (Suc n) h dir =
     (case readdirSync h dir of Inl err \<Rightarrow> True
      | Inr items \<Rightarrow>
          list_all (\<lambda>item.
              case statSync h (path_join h dir item) of Inl err \<Rightarrow> True
              | Inr stats \<Rightarrow> st_isDirectory stats \<longrightarrow> nests_within n h (path_join h dir item))
            items)"

section \<open>Example data\<close>

text \<open>
  A function named after two keywords, a method whose description alone mentions them, a
  query with given keywords that asks for functions, an engine for calls that build no
  regular expression, and options with a maximum and a threshold only.
\<close>

definition decl_sendEmail :: CodeElement where
  "decl_sendEmail =
     \<lparr>name = ''sendEmail'', etype = FUNCTION,
      signature = Some ''sendEmail(to: string): void'',
      description = Some ''Delivers a message'',
      filePath = ''src/mailer.ts'', startLine = 1, endLine = 3, startColumn = 1, endColumn = 2,
      parameters = None, returnType = Some ''void'', modifiers = None, context_text = None\<rparr>"

definition query_of :: "string list \<Rightarrow> SearchQuery" where
  "query_of kws =
     \<lparr>query_text = join '' '' kws, intent = FIND_FUNCTIONS,
      query_keywords = kws, elementTypes = [FUNCTION, METHOD], language = None\<rparr>"

definition decl_notifyUser :: CodeElement where
  "decl_notifyUser =
     \<lparr>name = ''notifyUser'', etype = METHOD,
      signature = Some ''notifyUser(user: User): void'',
      description = Some ''Send an email to the user'',
      filePath = ''src/notify.ts'', startLine = 10, endLine = 14, startColumn = 3, endColumn = 4,
      parameters = Some [\<lparr>param_name = ''user'', param_type = Some ''User'',
                            param_optional = None, param_defaultValue = None\<rparr>],
      returnType = Some ''void'', modifiers = Some [''public''], context_text = None\<rparr>"

definition regexp_never :: regexp_engine where
  "regexp_never src s = Inl (SyntaxError src)"

definition options_of :: "int option \<Rightarrow> real option \<Rightarrow> SearchOptions" where
  "options_of maxRes thresh =
     \<lparr>maxResults = maxRes, threshold = thresh, includeSnippets = None, caseSensitive = None,
      languages = None, filePatterns = None\<rparr>"

text \<open>
  The configuration the search command creates its indexer with, and a parsed file.
\<close>

definition config_default :: IndexerConfig where
  "config_default =
     \<lparr>maxFileSize = 1024 * 1024,
      excludePatterns = [''node_modules'', ''.git'', ''dist'', ''build''],
      includePatterns = [''**/*.ts'', ''**/*.tsx'', ''**/*.js'', ''**/*.jsx''],
      watchFiles = True, cacheSize = 10000\<rparr>"

definition parsed_mailer :: ParsedFile where
  "parsed_mailer =
     \<lparr>pf_filePath = ''src/mailer.ts'', pf_language = ''typescript'',
      pf_elements = [decl_sendEmail], pf_imports = [], pf_exports = [], pf_errors = []\<rparr>"

definition file_stats :: "nat \<Rightarrow> int \<Rightarrow> Stats" where
  "file_stats n t = \<lparr>st_size = n, st_mtime = t, st_isDirectory = False, st_isFile = True\<rparr>"

text \<open>
  A workspace \<open>src\<close> with four entries: \<open>mailer.ts\<close> can be read and parsed,
  \<open>locked.ts\<close> can be statted but not read, \<open>gone.ts\<close> cannot be statted, and
  \<open>later.ts\<close> is a readable file after it. No pattern of this host's engine matches.
\<close>

definition host_src :: host where
  "host_src =
     \<lparr>statSync = (\<lambda>p. if p = ''src/mailer.ts'' then Inr (file_stats 40 1700000000000)
                     else if p = ''src/locked.ts'' then Inr (file_stats 10 1700000000001)
                     else if p = ''src/later.ts'' then Inr (file_stats 12 1700000000002)
                     else Inl (SystemError ''ENOENT'')),
      readFileSync = (\<lambda>p. if p = ''src/mailer.ts''
                           then Inr ''function sendEmail(to: string): void {}''
                         else if p = ''src/later.ts'' then Inr ''const x = 1;''
                         else if p = ''src/locked.ts'' then Inl (SystemError ''EACCES'')
                         else Inl (SystemError ''ENOENT'')),
      readdirSync = (\<lambda>p. if p = ''src''
                          then Inr [''mailer.ts'', ''locked.ts'', ''gone.ts'', ''later.ts'']
                        else Inl (SystemError ''ENOENT'')),
      parseFile = (\<lambda>p. if p = ''src/mailer.ts'' then Inr parsed_mailer
                      else Inl (ParserError ''unreadable'')),
      host_regexp = (\<lambda>src s. Inr False),
      path_join = (\<lambda>dir item. dir @ ''/'' @ item),
      path_basename = (\<lambda>p. rev (takeWhile (\<lambda>c. c \<noteq> CHR ''/'') (rev p))),
      path_extname = (\<lambda>p. CHR ''.'' # rev (takeWhile (\<lambda>c. c \<noteq> CHR ''.'') (rev p))),
      now = 1700000000500\<rparr>"

text \<open>The same workspace later: \<open>mailer.ts\<close> was touched and no longer parses.\<close>

definition host_src_broken :: host where
  "host_src_broken =
     host_src
       \<lparr>statSync := (\<lambda>p. if p = ''src/mailer.ts'' then Inr (file_stats 41 1700000009000)
                       else statSync host_src p),
        readFileSync := (\<lambda>p. if p = ''src/mailer.ts''
                             then Inr ''function sendEmail(to: string): void {{''
                           else readFileSync host_src p),
        parseFile := (\<lambda>p. Inl (ParserError ''unexpected end of file''))\<rparr>"

text \<open>A host without the workspace root: every call of \<open>fs\<close> fails.\<close>

definition host_no_root :: host where
  "host_no_root =
     host_src
       \<lparr>statSync := (\<lambda>p. Inl (SystemError ''ENOENT'')),
        readFileSync := (\<lambda>p. Inl (SystemError ''ENOENT'')),
        readdirSync := (\<lambda>p. Inl (SystemError ''ENOENT''))\<rparr>"

definition indexed_once :: CodeIndexer where
  "indexed_once = projr (indexFile host_src ''src/mailer.ts'' (new_CodeIndexer host_src config_default))"

text \<open>
  A workspace \<open>app\<close> with a subdirectory \<open>lib\<close>: \<open>main.ts\<close> and \<open>lib/util.ts\<close> can be
  read and parsed, \<open>locked.ts\<close> can be statted but not read.
\<close>

definition dir_stats :: "int \<Rightarrow> Stats" where
  "dir_stats t = \<lparr>st_size = 4096, st_mtime = t, st_isDirectory = True, st_isFile = False\<rparr>"

definition host_tree :: host where
  "host_tree =
     host_src
       \<lparr>statSync := (\<lambda>p. if p = ''app/lib'' then Inr (dir_stats 1700000000010)
                       else if p = ''app/lib/util.ts'' then Inr (file_stats 30 1700000000011)
                       else if p = ''app/locked.ts'' then Inr (file_stats 10 1700000000012)
                       else if p = ''app/main.ts'' then Inr (file_stats 40 1700000000013)
                       else Inl (SystemError ''ENOENT'')),
        readFileSync := (\<lambda>p. if p = ''app/lib/util.ts''
                             then Inr ''function notifyUser() {}''
                           else if p = ''app/main.ts''
                             then Inr ''function sendEmail(to: string): void {}''
                           else if p = ''app/locked.ts'' then Inl (SystemError ''EACCES'')
                           else Inl (SystemError ''ENOENT'')),
        readdirSync := (\<lambda>p. if p = ''app'' then Inr [''lib'', ''locked.ts'', ''main.ts'']
                          else if p = ''app/lib'' then Inr [''util.ts'']
                          else Inl (SystemError ''ENOENT'')),
        parseFile := (\<lambda>p. if p = ''app/main.ts''
                          then Inr (parsed_mailer\<lparr>pf_filePath := ''app/main.ts''\<rparr>)
                        else if p = ''app/lib/util.ts''
                          then Inr (parsed_mailer\<lparr>pf_filePath := ''app/lib/util.ts'',
                                                 pf_elements := [decl_notifyUser]\<rparr>)
                        else Inl (ParserError ''unreadable''))\<rparr>"

text \<open>
  A file of 170000 declarations \<open>var a;\<close>, 1020000 characters long, and the host that
  holds it.
\<close>

definition decl_var_a :: "nat \<Rightarrow> CodeElement" where
  "decl_var_a i =
     \<lparr>name = ''a'', etype = VARIABLE, signature = None, description = None,
      filePath = ''src/big.ts'', startLine = 1, endLine = 1,
      startColumn = 6 * int i + 5, endColumn = 6 * int i + 6,
      parameters = None, returnType = None, modifiers = None, context_text = None\<rparr>"

definition big_elements :: "CodeElement list" where
  "big_elements = map decl_var_a [0..<170000]"

definition big_content :: string where
  "big_content = concat (replicate 170000 ''var a;'')"

definition host_big :: host where
  "host_big =
     host_src
       \<lparr>statSync := (\<lambda>p. if p = ''src/big.ts'' then Inr (file_stats 1020000 1700000000003)
                       else Inl (SystemError ''ENOENT'')),
        readFileSync := (\<lambda>p. if p = ''src/big.ts''
                             then Inr big_content
                           else Inl (SystemError ''ENOENT'')),
        parseFile := (\<lambda>p. if p = ''src/big.ts''
                          then Inr \<lparr>pf_filePath = ''src/big.ts'', pf_language = ''typescript'',
                                    pf_elements = big_elements, pf_imports = [],
                                    pf_exports = [], pf_errors = []\<rparr>
                        else Inl (ParserError ''unreadable''))\<rparr>"

section \<open>Properties of the score\<close>

lemma getNameMatchScore_contained:
  "includes_str n k \<Longrightarrow> getNameMatchScore n k = nameMatchScore_spec n k"
  by (simp add: getNameMatchScore_def nameMatchScore_spec_def startsWith_def endsWith_def)

lemma score_keyword_eq:
  "score_keyword (normalize cs (name e)) (normalize cs (or_empty (signature e)))
      (normalize cs (or_empty (description e))) cs acc k
   = (fst acc + keyword_contribution e cs k,
      snd acc + (if keyword_found e cs k then 1 else 0))"
  by (cases acc)
     (simp add: score_keyword_def keyword_contribution_def keyword_found_def Let_def
        getNameMatchScore_contained)

lemma foldl_score_keyword:
  "foldl (score_keyword (normalize cs (name e)) (normalize cs (or_empty (signature e)))
      (normalize cs (or_empty (description e))) cs) acc kws
   = (fst acc + base_score_spec e cs kws, snd acc + matched_count e cs kws)"
proof (induction kws arbitrary: acc)
  case Nil
  show ?case by (simp add: base_score_spec_def matched_count_def)
next
  case (Cons k kws)
  let ?f = "score_keyword (normalize cs (name e)) (normalize cs (or_empty (signature e)))
      (normalize cs (or_empty (description e))) cs"
  have "foldl ?f acc (k # kws) = foldl ?f (?f acc k) kws" by simp
  also have "\<dots> = (fst (?f acc k) + base_score_spec e cs kws,
                      snd (?f acc k) + matched_count e cs kws)"
    by (rule Cons.IH)
  also have "\<dots> = (fst acc + base_score_spec e cs (k # kws),
                      snd acc + matched_count e cs (k # kws))"
    by (simp add: score_keyword_eq base_score_spec_def matched_count_def)
  finally show ?case .
qed

lemma score_loop_eq:
  "score_loop e cs kws = (base_score_spec e cs kws, matched_count e cs kws)"
  by (simp add: score_loop_def foldl_score_keyword)

lemma keyword_contribution_nonneg: "0 \<le> keyword_contribution e cs k"
  by (simp add: keyword_contribution_def nameMatchScore_spec_def Let_def)

lemma base_score_nonneg: "0 \<le> base_score_spec e cs kws"
  unfolding base_score_spec_def
  by (rule sum_list_nonneg) (auto simp: keyword_contribution_nonneg)

lemma type_bonus_eq: "type_bonus e q = intent_bonus_spec e q"
  by (simp add: type_bonus_def intent_bonus_spec_def)

lemma type_bonus_nonneg: "0 \<le> type_bonus e q"
  by (simp add: type_bonus_def)

lemma calculateScore_cases:
  "calculateScore e q cs =
     (let kws = new_Set (query_keywords q)
      in if kws = [] \<or> matched_count e cs kws = 0
            \<or> (1 < length kws \<and> completeness e cs kws < 1 / 2)
         then 0 else score_formula e q cs)"
  by (simp add: calculateScore_def score_loop_eq Let_def score_formula_def completeness_def
      type_bonus_eq power2_eq_square)

text \<open>
  Claim C1, as amended. For every declaration, query and case-sensitivity flag, the loop
  of \<open>calculateScore\<close> computes as base score the sum, over the deduplicated keywords, of
  the contribution of the first field (name, then signature, then description) that
  contains the keyword, and as count the number of keywords found. The returned score is
  0 when there is no keyword, when no keyword is found, or when there is more than one
  keyword and the completeness is below one half; in every other case it is the base
  score times the squared completeness, plus the bonus, divided by
  \<open>keywordCount \<times> 1.5 \<times> 1.5 + 0.2\<close> and clamped to at most 1.
\<close>

theorem calculateScore_formula:
  "fst (score_loop e cs kws) = base_score_spec e cs kws
   \<and> snd (score_loop e cs kws) = matched_count e cs kws
   \<and> calculateScore e q cs =
       (if new_Set (query_keywords q) = [] \<or> matched_count e cs (new_Set (query_keywords q)) = 0
           \<or> (1 < length (new_Set (query_keywords q))
               \<and> completeness e cs (new_Set (query_keywords q)) < 1 / 2)
        then 0 else score_formula e q cs)"
  using calculateScore_cases[of e q cs] by (simp add: score_loop_eq Let_def)

theorem calculateScore_formula_witness:
  "fst (score_loop decl_sendEmail False [''send'', ''email'']) = 3
   \<and> snd (score_loop decl_sendEmail False [''send'', ''email'']) = 2
   \<and> calculateScore decl_sendEmail (query_of [''send'', ''email'']) False = 32 / 47"
proof -
  have k: "new_Set (query_keywords (query_of [''send'', ''email''])) = [''send'', ''email'']"
    by code_simp
  have m: "matched_count decl_sendEmail False [''send'', ''email''] = 2"
    by code_simp
  have b: "base_score_spec decl_sendEmail False [''send'', ''email''] = 3"
    by code_simp
  have c: "completeness decl_sendEmail False [''send'', ''email''] = 1"
    by (simp add: completeness_def m)
  have f: "score_formula decl_sendEmail (query_of [''send'', ''email'']) False = 32 / 47"
    by code_simp
  show ?thesis
    using calculateScore_formula [of decl_sendEmail False "[''send'', ''email'']"
        "query_of [''send'', ''email'']"]
    by (simp add: k m b c f)
qed


text \<open>
  The formula without the three guards is not what is returned: a function declaration
  that contains none of the keywords scores 0, while the bonus alone makes the formula
  positive.
\<close>

theorem calculateScore_formula_counterexample:
  "calculateScore decl_sendEmail (query_of [''invoice'']) False = 0
   \<and> score_formula decl_sendEmail (query_of [''invoice'']) False = 4 / 49"
  by code_simp


text \<open>
  Claim C2. When the deduplicated keyword list has more than one keyword and fewer than
  half of its keywords are found in the name, the signature or the description of a
  declaration, the score of that declaration is exactly 0; a declaration that matches 1
  of 3 keywords is the instance below.
\<close>

theorem completeness_cutoff:
  assumes "1 < length (new_Set (query_keywords q))"
    and "2 * matched_count e cs (new_Set (query_keywords q)) < length (new_Set (query_keywords q))"
  shows "calculateScore e q cs = 0"
proof -
  let ?kws = "new_Set (query_keywords q)"
  have "real (2 * matched_count e cs ?kws) < real (length ?kws)"
    using assms(2) by (simp only: of_nat_less_iff)
  moreover have "0 < length ?kws"
    using assms(1) by linarith
  ultimately have "completeness e cs ?kws < 1 / 2"
    by (simp add: completeness_def pos_divide_less_eq)
  with assms(1) have c: "1 < length ?kws \<and> completeness e cs ?kws < 1 / 2" by simp
  show ?thesis
    unfolding calculateScore_cases Let_def using c by (simp only: if_True simp_thms)
qed

theorem completeness_cutoff_witness:
  "calculateScore decl_sendEmail (query_of [''send'', ''invoice'', ''pdf'']) False = 0"
proof -
  have k: "new_Set (query_keywords (query_of [''send'', ''invoice'', ''pdf'']))
           = [''send'', ''invoice'', ''pdf'']"
    by code_simp
  have m: "matched_count decl_sendEmail False [''send'', ''invoice'', ''pdf''] = 1"
    by code_simp
  show ?thesis
    by (rule completeness_cutoff) (simp_all add: k m)
qed


text \<open>
  Claim C3. For every declaration, query and case-sensitivity flag the score lies in the
  closed interval from 0 to 1.
\<close>

theorem score_bounds: "0 \<le> calculateScore e q cs \<and> calculateScore e q cs \<le> 1"
proof -
  let ?kws = "new_Set (query_keywords q)"
  have "0 \<le> score_formula e q cs"
    unfolding score_formula_def Let_def
    by (intro min.boundedI divide_nonneg_nonneg add_nonneg_nonneg mult_nonneg_nonneg
        base_score_nonneg zero_le_power2) (simp_all add: intent_bonus_spec_def)
  moreover have "score_formula e q cs \<le> 1"
    by (simp add: score_formula_def Let_def)
  ultimately show ?thesis
    by (simp add: calculateScore_cases Let_def)
qed

theorem score_bounds_witness:
  "0 \<le> calculateScore decl_sendEmail (query_of [''send'', ''email'']) False
   \<and> calculateScore decl_sendEmail (query_of [''send'', ''email'']) False \<le> 1"
  by (rule score_bounds)

section \<open>Properties of search\<close>

lemma search_stages:
  "search rt els q opts =
     (case filtered_elements rt els q opts of Inl err \<Rightarrow> Inl err
      | Inr cands \<Rightarrow> Inr (slice0 (ranked_results q opts cands) (default_to 50 (maxResults opts))))"
  unfolding search_def filtered_elements_def ranked_results_def Let_def ..

lemma filter_e_subseq: "filter_e p xs = Inr ys \<Longrightarrow> subseq ys xs"
proof (induction xs arbitrary: ys)
  case Nil
  then show ?case by simp
next
  case (Cons x xs)
  then show ?case
    by (auto split: sum.splits if_splits)
qed

lemma slice0_take: "\<exists>k. slice0 xs n = take k xs"
  by (auto simp: slice0_def)

lemma length_slice0: "0 \<le> n \<Longrightarrow> int (length (slice0 xs n)) \<le> n"
  by (simp add: slice0_def)

lemma sorted_sort_by_score: "sorted_wrt (\<lambda>a b. score b \<le> score a) (sort_by_score rs)"
proof -
  have "sorted (map (\<lambda>r. - score r) (sort_key (\<lambda>r. - score r) rs))"
    by (rule sorted_sort_key)
  then show ?thesis
    by (simp add: sort_by_score_def sorted_map)
qed

lemma sort_by_score_stable:
  "filter (\<lambda>r. score r = v) (sort_by_score rs) = filter (\<lambda>r. score r = v) rs"
proof -
  have "filter (\<lambda>r. - score r = - v) (sort_key (\<lambda>r. - score r) rs)
        = filter (\<lambda>r. - score r = - v) rs"
    by (rule sort_key_stable)
  then show ?thesis
    by (simp add: sort_by_score_def)
qed

lemma subseq_set_subset:
  assumes "subseq xs ys"
  shows "set xs \<subseteq> set ys"
proof
  fix x assume "x \<in> set xs"
  with assms obtain y where "y \<in> set ys" and "x = y"
    by (rule list_emb_set)
  then show "x \<in> set ys" by simp
qed

lemma subseq_if_filter: "subseq (if b then filter P xs else xs) xs"
  by simp

lemma filtered_elements_subseq:
  assumes "filtered_elements rt els q opts = Inr cands"
  shows "subseq cands els"
proof -
  let ?f1 = "if length (elementTypes q) > 0
             then filter (\<lambda>el. etype el \<in> set (elementTypes q)) els else els"
  let ?langs = "default_to [] (languages opts)"
  let ?f2 = "if length ?langs > 0
             then filter (\<lambda>el. list_ex (\<lambda>lang. endsWith (filePath el) (''.'' @ lang)) ?langs) ?f1
             else ?f1"
  have s1: "subseq ?f1 els" by (rule subseq_if_filter)
  have s2: "subseq ?f2 ?f1" by (rule subseq_if_filter)
  have s3: "subseq cands ?f2"
    using assms filter_e_subseq
    by (auto simp: filtered_elements_def Let_def split: if_splits)
  show ?thesis
    using s1 s2 s3 by (meson subseq_order.order_trans)
qed

lemma search_Inr:
  assumes "search rt els q opts = Inr rs"
  obtains cands k where
    "subseq cands els"
    "rs = take k (ranked_results q opts cands)"
    "slice0 (ranked_results q opts cands) (default_to 50 (maxResults opts)) = rs"
proof -
  from assms obtain cands where c: "filtered_elements rt els q opts = Inr cands"
    and r: "rs = slice0 (ranked_results q opts cands) (default_to 50 (maxResults opts))"
    by (auto simp: search_stages split: sum.splits)
  obtain k where "slice0 (ranked_results q opts cands) (default_to 50 (maxResults opts))
                  = take k (ranked_results q opts cands)"
    using slice0_take by blast
  then show thesis
    using that[of cands k] filtered_elements_subseq[OF c] r by simp
qed

text \<open>
  Claim C4, as amended. Whenever \<open>search\<close> returns a list, every result in it has a
  score at or above the configured threshold (0.2 when none is configured), that score
  is the one \<open>calculateScore\<close> gives its declaration, and the declaration is one of the
  input; the list is in descending order of score; the results of any one score keep
  the order their declarations have in the input; when the configured maximum result
  count is not negative the list is at most that long; and when no maximum is
  configured it has at most 50 results.
\<close>

theorem search_results:
  assumes "search rt els q opts = Inr rs"
  shows "(\<forall>r \<in> set rs. default_to 0.2 (threshold opts) \<le> score r
            \<and> score r = calculateScore (element r) q (default_to False (caseSensitive opts))
            \<and> element r \<in> set els)
         \<and> sorted_wrt (\<lambda>a b. score b \<le> score a) rs
         \<and> (\<forall>v. subseq (map element (filter (\<lambda>r. score r = v) rs)) els)
         \<and> (0 \<le> default_to 50 (maxResults opts)
              \<longrightarrow> int (length rs) \<le> default_to 50 (maxResults opts))
         \<and> (maxResults opts = None \<longrightarrow> length rs \<le> 50)"
proof -
  let ?cs = "default_to False (caseSensitive opts)"
  let ?mk = "make_result q (default_to True (includeSnippets opts)) ?cs"
  let ?th = "default_to 0.2 (threshold opts)"
  from assms obtain cands k where sub: "subseq cands els"
    and rs: "rs = take k (sort_by_score (map ?mk (filter (\<lambda>el. ?th \<le> calculateScore el q ?cs) cands)))"
    and sl: "slice0 (sort_by_score (map ?mk (filter (\<lambda>el. ?th \<le> calculateScore el q ?cs) cands)))
               (default_to 50 (maxResults opts)) = rs"
    unfolding ranked_results_def [symmetric] by (rule search_Inr)
  let ?kept = "filter (\<lambda>el. ?th \<le> calculateScore el q ?cs) cands"
  have mk_score: "score (?mk el) = calculateScore el q ?cs" for el
    by (simp add: make_result_def Let_def)
  have mk_element: "element (?mk el) = el" for el
    by (simp add: make_result_def Let_def)
  have cands_els: "set cands \<subseteq> set els"
    using sub by (rule subseq_set_subset)
  have p1: "\<forall>r \<in> set rs. ?th \<le> score r \<and> score r = calculateScore (element r) q ?cs
              \<and> element r \<in> set els"
  proof
    fix r assume "r \<in> set rs"
    then have "r \<in> set (sort_by_score (map ?mk ?kept))"
      unfolding rs by (rule in_set_takeD)
    then have "r \<in> set (map ?mk ?kept)"
      by (simp add: sort_by_score_def)
    then obtain el where el: "el \<in> set ?kept" and r: "r = ?mk el"
      by auto
    from el have "?th \<le> calculateScore el q ?cs" and "el \<in> set els"
      using cands_els by auto
    then show "?th \<le> score r \<and> score r = calculateScore (element r) q ?cs \<and> element r \<in> set els"
      unfolding r mk_score mk_element by simp
  qed
  have p2: "sorted_wrt (\<lambda>a b. score b \<le> score a) rs"
    unfolding rs by (rule sorted_wrt_take) (rule sorted_sort_by_score)
  have p3: "subseq (map element (filter (\<lambda>r. score r = v) rs)) els" for v
  proof -
    have "prefix (filter (\<lambda>r. score r = v) rs)
            (filter (\<lambda>r. score r = v) (sort_by_score (map ?mk ?kept)))"
      unfolding rs by (rule filter_mono_prefix) (rule take_is_prefix)
    then have "prefix (filter (\<lambda>r. score r = v) rs) (filter (\<lambda>r. score r = v) (map ?mk ?kept))"
      by (simp only: sort_by_score_stable)
    then have "subseq (map element (filter (\<lambda>r. score r = v) rs))
                 (map element (filter (\<lambda>r. score r = v) (map ?mk ?kept)))"
      by (intro subseq_map prefix_imp_subseq)
    moreover have "map element (filter (\<lambda>r. score r = v) (map ?mk ?kept))
                   = filter (\<lambda>el. calculateScore el q ?cs = v) ?kept"
      by (simp add: filter_map comp_def mk_score mk_element)
    moreover have "subseq (filter (\<lambda>el. calculateScore el q ?cs = v) ?kept) cands"
      by (meson subseq_filter_left subseq_order.order_trans)
    ultimately show ?thesis
      using sub by (metis subseq_order.order_trans)
  qed
  have p4: "0 \<le> default_to 50 (maxResults opts)
              \<longrightarrow> int (length rs) \<le> default_to 50 (maxResults opts)"
    using length_slice0 sl by blast
  have p5: "maxResults opts = None \<longrightarrow> length rs \<le> 50"
    using p4 by (auto simp: default_to_def)
  show ?thesis
    using p1 p2 p3 p4 p5 by blast
qed

theorem search_results_witness:
  "map (\<lambda>r. name (element r))
     (projr (search regexp_never [decl_notifyUser, decl_sendEmail]
               (query_of [''send'', ''email'']) (options_of None (Some 0.1))))
     = [''sendEmail'', ''notifyUser'']
   \<and> sorted_wrt (\<lambda>a b. score b \<le> score a)
        (projr (search regexp_never [decl_notifyUser, decl_sendEmail]
                  (query_of [''send'', ''email'']) (options_of None (Some 0.1))))
   \<and> length (projr (search regexp_never [decl_notifyUser, decl_sendEmail]
                      (query_of [''send'', ''email'']) (options_of None (Some 0.1)))) \<le> 50"
proof -
  let ?S = "search regexp_never [decl_notifyUser, decl_sendEmail]
              (query_of [''send'', ''email'']) (options_of None (Some 0.1))"
  have "\<not> isl ?S" by code_simp
  then have eq: "?S = Inr (projr ?S)" by simp
  have names: "map (\<lambda>r. name (element r)) (projr ?S) = [''sendEmail'', ''notifyUser'']"
    by code_simp
  have none: "maxResults (options_of None (Some 0.1)) = None"
    by (simp add: options_of_def)
  show ?thesis
    using search_results [OF eq] names none by blast
qed

text \<open>
  With the maximum \<open>-1\<close> the call returns all results but the last: one result here,
  which is more than the configured maximum.
\<close>

theorem search_results_counterexample:
  "map (\<lambda>r. name (element r))
     (projr (search regexp_never [decl_notifyUser, decl_sendEmail]
               (query_of [''send'', ''email'']) (options_of (Some (- 1)) (Some 0.1))))
     = [''sendEmail'']
   \<and> \<not> isl (search regexp_never [decl_notifyUser, decl_sendEmail]
               (query_of [''send'', ''email'']) (options_of (Some (- 1)) (Some 0.1)))
   \<and> maxResults (options_of (Some (- 1)) (Some 0.1)) = Some (- 1)"
  by code_simp

section \<open>Properties of the query interpreter\<close>

lemma parse_elementTypes:
  "elementTypes (parse queryText) = extractElementTypes (tokenize (normalizeQuery queryText)) (intent (parse queryText))"
  by (simp add: parse_def Let_def)

lemma determineIntent_not_FIND_METHODS: "determineIntent ws \<noteq> FIND_METHODS"
  by (simp add: determineIntent_def Let_def)

lemma parse_intent: "intent (parse queryText) = determineIntent (tokenize (normalizeQuery queryText))"
  by (simp add: parse_def Let_def)

text \<open>
  Claim C5. \<open>parse\<close> on "functions that send email" gives the intent
  \<open>FIND_FUNCTIONS\<close>, the kinds function and method, and keywords that contain "send"
  and "email"; and for every query text the kinds of the parsed query are the ones its
  intent stands for: function and method for \<open>FIND_FUNCTIONS\<close>, class for
  \<open>FIND_CLASSES\<close>, variable and property for \<open>FIND_VARIABLES\<close>, interface for
  \<open>FIND_INTERFACES\<close>, type alias and interface for \<open>FIND_TYPES\<close>, and the seven kinds
  function, class, method, variable, property, interface and type alias for \<open>FIND_ALL\<close>
  (\<open>FIND_METHODS\<close> is never the intent of a parsed query).
\<close>

theorem intent_mapping:
  "intent (parse ''functions that send email'') = FIND_FUNCTIONS
   \<and> set (elementTypes (parse ''functions that send email'')) = {FUNCTION, METHOD}
   \<and> ''send'' \<in> set (query_keywords (parse ''functions that send email''))
   \<and> ''email'' \<in> set (query_keywords (parse ''functions that send email''))
   \<and> (\<forall>queryText.
         (case intent (parse queryText) of
            FIND_FUNCTIONS \<Rightarrow> set (elementTypes (parse queryText)) = {FUNCTION, METHOD}
          | FIND_CLASSES \<Rightarrow> set (elementTypes (parse queryText)) = {CLASS}
          | FIND_VARIABLES \<Rightarrow> set (elementTypes (parse queryText)) = {VARIABLE, PROPERTY}
          | FIND_INTERFACES \<Rightarrow> set (elementTypes (parse queryText)) = {INTERFACE}
          | FIND_TYPES \<Rightarrow> set (elementTypes (parse queryText)) = {TYPE_ALIAS, INTERFACE}
          | FIND_ALL \<Rightarrow>
              set (elementTypes (parse queryText))
              = {FUNCTION, CLASS, METHOD, VARIABLE, PROPERTY, INTERFACE, TYPE_ALIAS}
          | FIND_METHODS \<Rightarrow> False))"
proof -
  have e: "parse ''functions that send email''
           = \<lparr>query_text = ''functions that send email'', intent = FIND_FUNCTIONS,
              query_keywords = [''send'', ''email''], elementTypes = [FUNCTION, METHOD],
              language = None\<rparr>"
    by code_simp
  have m: "(case intent (parse queryText) of
            FIND_FUNCTIONS \<Rightarrow> set (elementTypes (parse queryText)) = {FUNCTION, METHOD}
          | FIND_CLASSES \<Rightarrow> set (elementTypes (parse queryText)) = {CLASS}
          | FIND_VARIABLES \<Rightarrow> set (elementTypes (parse queryText)) = {VARIABLE, PROPERTY}
          | FIND_INTERFACES \<Rightarrow> set (elementTypes (parse queryText)) = {INTERFACE}
          | FIND_TYPES \<Rightarrow> set (elementTypes (parse queryText)) = {TYPE_ALIAS, INTERFACE}
          | FIND_ALL \<Rightarrow>
              set (elementTypes (parse queryText))
              = {FUNCTION, CLASS, METHOD, VARIABLE, PROPERTY, INTERFACE, TYPE_ALIAS}
          | FIND_METHODS \<Rightarrow> False)" for queryText
    using determineIntent_not_FIND_METHODS [of "tokenize (normalizeQuery queryText)"]
    by (cases "intent (parse queryText)")
       (auto simp: parse_elementTypes parse_intent)
  show ?thesis
    using m by (simp add: e)
qed

theorem intent_mapping_witness:
  "intent (parse ''functions that send email'') = FIND_FUNCTIONS
   \<and> query_keywords (parse ''functions that send email'') = [''send'', ''email'']
   \<and> set (elementTypes (parse ''classes for payments'')) = {CLASS}"
proof -
  have i: "intent (parse ''classes for payments'') = FIND_CLASSES"
    by code_simp
  have k: "query_keywords (parse ''functions that send email'') = [''send'', ''email'']"
    by code_simp
  from intent_mapping have
    "intent (parse ''functions that send email'') = FIND_FUNCTIONS"
    and "(case intent (parse ''classes for payments'') of
            FIND_FUNCTIONS \<Rightarrow> set (elementTypes (parse ''classes for payments'')) = {FUNCTION, METHOD}
          | FIND_CLASSES \<Rightarrow> set (elementTypes (parse ''classes for payments'')) = {CLASS}
          | FIND_VARIABLES \<Rightarrow> set (elementTypes (parse ''classes for payments'')) = {VARIABLE, PROPERTY}
          | FIND_INTERFACES \<Rightarrow> set (elementTypes (parse ''classes for payments'')) = {INTERFACE}
          | FIND_TYPES \<Rightarrow> set (elementTypes (parse ''classes for payments'')) = {TYPE_ALIAS, INTERFACE}
          | FIND_ALL \<Rightarrow>
              set (elementTypes (parse ''classes for payments''))
              = {FUNCTION, CLASS, METHOD, VARIABLE, PROPERTY, INTERFACE, TYPE_ALIAS}
          | FIND_METHODS \<Rightarrow> False)"
    by blast+
  then show ?thesis
    using k by (simp add: i)
qed

lemma lowerChar_whitespace: "isWhiteSpace c \<Longrightarrow> lowerChar c = c"
  by (auto simp: isWhiteSpace_def lowerChar_def Let_def)

lemma toLowerCase_whitespace:
  assumes "\<forall>c \<in> set queryText. isWhiteSpace c"
  shows "toLowerCase queryText = queryText"
  unfolding toLowerCase_def using assms
  by (induction queryText) (simp_all add: lowerChar_whitespace)

lemma trim_whitespace:
  assumes "\<forall>c \<in> set queryText. isWhiteSpace c"
  shows "trim queryText = []"
proof -
  have d: "dropWhile isWhiteSpace queryText = []"
    using assms dropWhile_eq_Nil_conv by blast
  show ?thesis unfolding trim_def d by simp
qed

lemma parse_whitespace:
  assumes "\<forall>c \<in> set queryText. isWhiteSpace c"
  shows "query_keywords (parse queryText) = [] \<and> intent (parse queryText) = FIND_ALL"
proof -
  have n: "normalizeQuery queryText = []"
    using assms by (simp add: normalizeQuery_def toLowerCase_whitespace trim_whitespace)
  have t: "tokenize [] = []"
    by (simp add: tokenize_def)
  have "extractKeywords [] = []"
    by (simp add: extractKeywords_def new_Set_def)
  moreover have "determineIntent [] = FIND_ALL"
    by (simp add: determineIntent_def)
  ultimately show ?thesis
    by (simp add: parse_def Let_def n t)
qed

lemma calculateScore_no_keywords: "query_keywords q = [] \<Longrightarrow> calculateScore e q cs = 0"
  by (simp add: calculateScore_def new_Set_def)

lemma ranked_results_no_keywords:
  assumes "query_keywords q = []" and "0 < default_to 0.2 (threshold opts)"
  shows "ranked_results q opts cands = []"
  using assms
  by (simp add: ranked_results_def calculateScore_no_keywords sort_by_score_def not_le [symmetric])

lemma slice0_Nil: "slice0 [] n = []"
  by (simp add: slice0_def)

text \<open>
  Claim C6, as amended. A query text that consists of white space only (the empty text
  included) parses to a query with no keyword and the intent \<open>FIND_ALL\<close>; a query with
  no keyword gives every declaration the score 0; and when the configured threshold is
  positive (it is 0.2 when none is configured) a search with such a query returns the
  empty list whenever it returns, and does return it when no file pattern is
  configured.
\<close>

theorem empty_query:
  "((\<forall>c \<in> set queryText. isWhiteSpace c)
      \<longrightarrow> query_keywords (parse queryText) = [] \<and> intent (parse queryText) = FIND_ALL)
   \<and> (query_keywords q = [] \<longrightarrow> calculateScore e q cs = 0)
   \<and> (query_keywords q = [] \<and> 0 < default_to 0.2 (threshold opts)
        \<and> search rt els q opts = Inr rs \<longrightarrow> rs = [])
   \<and> (query_keywords q = [] \<and> 0 < default_to 0.2 (threshold opts)
        \<and> default_to [] (filePatterns opts) = [] \<longrightarrow> search rt els q opts = Inr [])"
proof -
  have c: "rs = []"
    if "query_keywords q = []" "0 < default_to 0.2 (threshold opts)" "search rt els q opts = Inr rs"
    using that
    by (auto simp: search_stages ranked_results_no_keywords slice0_Nil split: sum.splits)
  have d: "search rt els q opts = Inr []"
    if "query_keywords q = []" "0 < default_to 0.2 (threshold opts)"
       "default_to [] (filePatterns opts) = []"
    using that
    by (simp add: search_stages ranked_results_no_keywords slice0_Nil filtered_elements_def Let_def)
  show ?thesis
    using parse_whitespace calculateScore_no_keywords c d by blast
qed

theorem empty_query_witness:
  "query_keywords (parse [CHR '' '', CHR 0x09]) = []
   \<and> intent (parse [CHR '' '', CHR 0x09]) = FIND_ALL
   \<and> calculateScore decl_sendEmail (parse [CHR '' '', CHR 0x09]) False = 0
   \<and> search regexp_never [decl_notifyUser, decl_sendEmail] (parse [CHR '' '', CHR 0x09])
        (options_of None None) = Inr []"
proof -
  have w: "\<forall>c \<in> set [CHR '' '', CHR 0x09]. isWhiteSpace c"
    by (simp add: isWhiteSpace_def)
  have t: "0 < default_to 0.2 (threshold (options_of None None))"
    by (simp add: options_of_def default_to_def)
  have p: "default_to [] (filePatterns (options_of None None)) = []"
    by (simp add: options_of_def default_to_def)
  have k: "query_keywords (parse [CHR '' '', CHR 0x09]) = []
           \<and> intent (parse [CHR '' '', CHR 0x09]) = FIND_ALL"
    using empty_query [of "[CHR '' '', CHR 0x09]"] w by blast
  then show ?thesis
    using empty_query [of "[CHR '' '', CHR 0x09]" "parse [CHR '' '', CHR 0x09]"
        decl_sendEmail False "options_of None None" regexp_never
        "[decl_notifyUser, decl_sendEmail]"] t p
    by blast
qed

text \<open>
  With the threshold 0 the declarations are not excluded: each is returned with the
  score 0.
\<close>

theorem empty_query_counterexample:
  "query_keywords (parse '' '') = []
   \<and> map (\<lambda>r. (name (element r), score r))
        (projr (search regexp_never [decl_notifyUser, decl_sendEmail] (parse '' '')
                  (options_of None (Some 0))))
      = [(''notifyUser'', 0), (''sendEmail'', 0)]
   \<and> \<not> isl (search regexp_never [decl_notifyUser, decl_sendEmail] (parse '' '')
                 (options_of None (Some 0)))"
  by code_simp

section \<open>Properties of the workspace index\<close>

lemma calculateFileHash_Inr:
  assumes "calculateFileHash h path = Inr fh"
  obtains content stats where "readFileSync h path = Inr content" "statSync h path = Inr stats"
  using assms by (auto simp: calculateFileHash_def split: sum.splits)

lemma indexFile_returns: "\<exists>s'. indexFile h path s = Inr s'"
  by (simp add: indexFile_def split: prod.splits option.splits)

lemma indexFile_try_index:
  obtains (same) "index (snd (indexFile_try h path s)) = index s"
  | (stored) fi where
      "index (snd (indexFile_try h path s))
         = (index s)\<lparr>files := AList.update path fi (files (index s)),
                      elements := AList.update path (fi_elements fi) (elements (index s))\<rparr>"
proof (cases "statSync h path")
  case (Inl err)
  then have "index (snd (indexFile_try h path s)) = index s"
    by (simp add: indexFile_try_def)
  then show thesis by (rule same)
next
  case stat: (Inr stats)
  show thesis
  proof (cases "calculateFileHash h path")
    case (Inl err)
    then have "index (snd (indexFile_try h path s)) = index s"
      using stat by (simp add: indexFile_try_def Let_def)
    then show thesis by (rule same)
  next
    case fh: (Inr fileHash)
    show thesis
    proof (cases "parseFile h path")
      case (Inl err)
      then have "index (snd (indexFile_try h path s)) = index s"
        using stat fh by (simp add: indexFile_try_def Let_def)
      then show thesis by (rule same)
    next
      case (Inr parsedFile)
      let ?fi = "\<lparr>fi_filePath = path, fi_language = pf_language parsedFile,
                  fi_elements = pf_elements parsedFile, lastModified = st_mtime stats,
                  hash = fileHash\<rparr>"
      show thesis
      proof (cases "int (st_size stats) > maxFileSize (config s)
                    \<or> (case map_of (files (index s)) path of None \<Rightarrow> False
                        | Some fi \<Rightarrow> hash fi = fileHash)")
        case True
        then have "index (snd (indexFile_try h path s)) = index s"
          using stat fh by (auto simp: indexFile_try_def Let_def)
        then show thesis by (rule same)
      next
        case False
        then have "index (snd (indexFile_try h path s))
           = (index s)\<lparr>files := AList.update path ?fi (files (index s)),
                        elements := AList.update path (fi_elements ?fi) (elements (index s))\<rparr>"
          using stat fh Inr by (simp add: indexFile_try_def Let_def)
        then show thesis by (rule stored)
      qed
    qed
  qed
qed

lemma indexFile_snd: "indexFile h path s = Inr (snd (indexFile_try h path s))"
  by (simp add: indexFile_def split: prod.splits option.splits)

lemma indexFile_try_unchanged:
  assumes "map_of (files (index s)) path = Some fi"
    and "calculateFileHash h path = Inr (hash fi)"
  shows "indexFile_try h path s = (None, s)"
proof -
  from assms(2) obtain content stats where "statSync h path = Inr stats"
    by (rule calculateFileHash_Inr)
  then show ?thesis
    using assms by (simp add: indexFile_try_def Let_def)
qed

text \<open>
  Claim C7. When the path is in the index and the fingerprint stored for it (the
  modification time and the content length, as \<open>calculateFileHash\<close> renders them) is
  the fingerprint the file has now, \<open>indexFile\<close> returns with the indexer as it was:
  the parser is not called, and the stored record, its fingerprint and its declaration
  list are the same as before the call.
\<close>

theorem indexFile_unchanged:
  assumes "map_of (files (index s)) path = Some fi"
    and "calculateFileHash h path = Inr (hash fi)"
  shows "indexFile h path s = Inr s"
proof -
  from assms(2) obtain content stats where "statSync h path = Inr stats"
    by (rule calculateFileHash_Inr)
  then have "indexFile_try h path s = (None, s)"
    using assms by (simp add: indexFile_try_def Let_def)
  then show ?thesis
    by (simp add: indexFile_def)
qed

theorem indexFile_unchanged_witness:
  "indexFile host_src ''src/mailer.ts'' indexed_once = Inr indexed_once
   \<and> parseCalls indexed_once = 1
   \<and> map pf_elements [parsed_mailer] = map fi_elements (map snd (files (index indexed_once)))"
proof -
  have a: "map_of (files (index indexed_once)) ''src/mailer.ts''
           = Some (the (map_of (files (index indexed_once)) ''src/mailer.ts''))"
    by code_simp
  have b: "calculateFileHash host_src ''src/mailer.ts''
           = Inr (hash (the (map_of (files (index indexed_once)) ''src/mailer.ts'')))"
    by code_simp
  have c: "parseCalls indexed_once = 1
           \<and> map pf_elements [parsed_mailer] = map fi_elements (map snd (files (index indexed_once)))"
    by code_simp
  show ?thesis
    using indexFile_unchanged [OF a b] c by simp
qed

text \<open>
  The first call on a file that can be statted, read and parsed, and is not too large,
  leaves an indexer on which a second call changes nothing: indexing an unchanged file
  twice parses it at most once.
\<close>

lemma indexFile_second_call:
  assumes "statSync h path = Inr stats"
    and "int (st_size stats) \<le> maxFileSize (config s)"
    and "calculateFileHash h path = Inr fileHash"
    and "parseFile h path = Inr parsedFile"
  shows "\<exists>s1. indexFile h path s = Inr s1 \<and> indexFile h path s1 = Inr s1
              \<and> map_option hash (map_of (files (index s1)) path) = Some fileHash"
proof (cases "case map_of (files (index s)) path of None \<Rightarrow> False
              | Some fi \<Rightarrow> hash fi = fileHash")
  case True
  then obtain fi where fi: "map_of (files (index s)) path = Some fi" "hash fi = fileHash"
    by (auto split: option.splits)
  then have "indexFile_try h path s = (None, s)"
    using assms(3) indexFile_try_unchanged by blast
  then show ?thesis
    using fi by (simp add: indexFile_def)
next
  case False
  let ?fi = "\<lparr>fi_filePath = path, fi_language = pf_language parsedFile,
              fi_elements = pf_elements parsedFile, lastModified = st_mtime stats,
              hash = fileHash\<rparr>"
  let ?s0 = "s\<lparr>parseCalls := Suc (parseCalls s)\<rparr>"
  let ?s1 = "?s0\<lparr>index := (index s)
                \<lparr>files := AList.update path ?fi (files (index s)),
                 elements := AList.update path (pf_elements parsedFile) (elements (index s))\<rparr>\<rparr>"
  have first: "indexFile_try h path s = (None, ?s1)"
    using assms False by (simp add: indexFile_try_def Let_def)
  have stored: "map_of (files (index ?s1)) path = Some ?fi"
    by (simp add: update_conv')
  have "calculateFileHash h path = Inr (hash ?fi)"
    using assms(3) by simp
  with stored have "indexFile_try h path ?s1 = (None, ?s1)"
    by (rule indexFile_try_unchanged)
  then show ?thesis
    using first stored by (simp add: indexFile_def)
qed

lemma indexFile_failure_index:
  assumes "isl (statSync h path) \<or> isl (readFileSync h path) \<or> isl (parseFile h path)"
  shows "index (snd (indexFile_try h path s)) = index s"
proof -
  have "isl (calculateFileHash h path)" if "isl (readFileSync h path)"
    using that by (auto simp: calculateFileHash_def isl_def)
  then show ?thesis
    using assms
    by (auto simp: indexFile_try_def Let_def isl_def split: sum.splits option.splits)
qed

text \<open>
  Claim C10. When the \<open>stat\<close> of the file, the reading of the file or the parser throws,
  \<open>indexFile\<close> still returns normally, and the index is what it was before the call;
  in particular the file record and the declaration list stored for the path are
  unchanged.
\<close>

theorem indexFile_failure_atomic:
  assumes "isl (statSync h path) \<or> isl (readFileSync h path) \<or> isl (parseFile h path)"
  shows "\<exists>s'. indexFile h path s = Inr s'
              \<and> index s' = index s
              \<and> map_of (files (index s')) path = map_of (files (index s)) path
              \<and> map_of (elements (index s')) path = map_of (elements (index s)) path"
  using indexFile_failure_index [OF assms, of s] by (simp add: indexFile_snd)

theorem indexFile_failure_atomic_witness:
  "isl (parseFile host_src_broken ''src/mailer.ts'')
   \<and> \<not> isl (indexFile host_src_broken ''src/mailer.ts'' indexed_once)
   \<and> index (projr (indexFile host_src_broken ''src/mailer.ts'' indexed_once)) = index indexed_once
   \<and> map fst (files (index indexed_once)) = [''src/mailer.ts'']"
proof -
  have f: "isl (statSync host_src_broken ''src/mailer.ts'')
           \<or> isl (readFileSync host_src_broken ''src/mailer.ts'')
           \<or> isl (parseFile host_src_broken ''src/mailer.ts'')"
    by code_simp
  have p: "isl (parseFile host_src_broken ''src/mailer.ts'')"
    by code_simp
  have k: "map fst (files (index indexed_once)) = [''src/mailer.ts'']"
    by code_simp
  from indexFile_failure_atomic [OF f, of indexed_once]
  obtain s' where "indexFile host_src_broken ''src/mailer.ts'' indexed_once = Inr s'"
    and "index s' = index indexed_once"
    by blast
  then show ?thesis
    using p k by simp
qed

lemma update_map_values:
  "AList.update k (f v) (map (\<lambda>(p, x). (p, f x)) al) = map (\<lambda>(p, x). (p, f x)) (AList.update k v al)"
  by (induction al) auto

lemma delete_map_values:
  "AList.delete k (map (\<lambda>(p, x). (p, f x)) al) = map (\<lambda>(p, x). (p, f x)) (AList.delete k al)"
  by (induction al) auto

lemma in_sync_indexFile:
  assumes "in_sync (index s)" and "indexFile h path s = Inr s'"
  shows "in_sync (index s')"
proof -
  have s': "s' = snd (indexFile_try h path s)"
    using assms(2) by (simp add: indexFile_snd)
  show ?thesis
  proof (cases rule: indexFile_try_index [of h path s])
    case same
    then show ?thesis using assms(1) s' by simp
  next
    case (stored fi)
    then show ?thesis
      using assms(1) s' by (simp add: in_sync_def update_map_values)
  qed
qed

lemma in_sync_removeFile: "in_sync (index s) \<Longrightarrow> in_sync (index (removeFile path s))"
  by (simp add: in_sync_def removeFile_def delete_map_values)

lemma in_sync_apply_op: "in_sync (index s) \<Longrightarrow> in_sync (index (apply_op s op))"
proof (cases op)
  case (IndexFile h path)
  assume "in_sync (index s)"
  then show ?thesis
    using IndexFile in_sync_indexFile [of s h path] indexFile_returns [of h path s]
    by auto
next
  case (RemoveFile path)
  assume "in_sync (index s)"
  then show ?thesis
    using RemoveFile by (simp add: in_sync_removeFile)
qed

lemma in_sync_run_ops: "in_sync (index s) \<Longrightarrow> in_sync (index (run_ops s ops))"
  unfolding run_ops_def
  by (induction ops arbitrary: s) (simp_all add: in_sync_apply_op)

lemma in_sync_new: "in_sync (index (new_CodeIndexer h cfg))"
  by (simp add: in_sync_def new_CodeIndexer_def)

lemma foldl_count_file:
  "fst (foldl count_file acc fis) = fst acc + sum_list (map (\<lambda>fi. length (fi_elements fi)) fis)"
  by (induction fis arbitrary: acc) (simp_all add: count_file_def Let_def)

lemma totalElements_eq:
  "totalElements (getStatistics s)
   = sum_list (map (\<lambda>fi. length (fi_elements fi)) (map snd (files (index s))))"
proof -
  obtain total byLanguage where f: "foldl count_file (0, []) (map snd (files (index s))) = (total, byLanguage)"
    by (cases "foldl count_file (0, []) (map snd (files (index s)))")
  have "total = fst (foldl count_file (0, []) (map snd (files (index s))))"
    by (simp add: f)
  then have "total = sum_list (map (\<lambda>fi. length (fi_elements fi)) (map snd (files (index s))))"
    by (simp only: foldl_count_file fst_conv add_0)
  then show ?thesis
    by (simp add: getStatistics_def f)
qed

lemma in_sync_keys:
  assumes "in_sync idx"
  shows "map fst (elements idx) = map fst (files idx)"
  using assms by (simp add: in_sync_def comp_def split_def)

lemma in_sync_lookup:
  assumes "in_sync idx"
  shows "map_of (elements idx) p = map_option fi_elements (map_of (files idx) p)"
proof -
  have "map_of (map (\<lambda>(p, fi). (p, fi_elements fi)) al) p = map_option fi_elements (map_of al p)"
    for al :: "(string \<times> FileIndex) list"
    by (induction al) auto
  then show ?thesis
    using assms by (simp add: in_sync_def)
qed

lemma push_all_length:
  "push_all m acc xss = Inr r \<Longrightarrow> length r = length acc + sum_list (map length xss)"
proof (induction xss arbitrary: acc)
  case Nil
  then show ?case by simp
next
  case (Cons xs xss)
  then show ?case
    by (auto simp: push_spread_def split: if_splits)
qed

lemma push_all_returns:
  "\<forall>xs \<in> set xss. length xs \<le> m \<Longrightarrow> push_all m acc xss = Inr (acc @ concat xss)"
  by (induction xss arbitrary: acc) (simp_all add: push_spread_def)

lemma in_sync_counts:
  assumes "in_sync (index s)" and "getAllElements m s = Inr els"
  shows "totalElements (getStatistics s) = length els"
proof -
  have "map length (map snd (elements (index s)))
        = map (\<lambda>fi. length (fi_elements fi)) (map snd (files (index s)))"
    using assms(1) by (simp add: in_sync_def comp_def split_def)
  moreover have "length els = sum_list (map length (map snd (elements (index s))))"
    using push_all_length [of m "[]" "map snd (elements (index s))" els] assms(2)
    by (simp add: getAllElements_def)
  ultimately show ?thesis
    by (simp add: totalElements_eq)
qed

text \<open>
  After any sequence of \<open>indexFile\<close> and \<open>removeFile\<close> calls on a new indexer, the map of
  file records and the map of declaration lists have the same keys, each path's
  declaration list is the one of its file record, and whenever \<open>getAllElements\<close>
  returns a list, its length is the total count of \<open>getStatistics\<close>.
\<close>

lemma index_maps_in_sync:
  "fst ` set (files (index (run_ops (new_CodeIndexer h cfg) ops)))
     = fst ` set (elements (index (run_ops (new_CodeIndexer h cfg) ops)))
   \<and> (\<forall>p. map_of (elements (index (run_ops (new_CodeIndexer h cfg) ops))) p
           = map_option fi_elements
               (map_of (files (index (run_ops (new_CodeIndexer h cfg) ops))) p))
   \<and> (\<forall>m els. getAllElements m (run_ops (new_CodeIndexer h cfg) ops) = Inr els
         \<longrightarrow> totalElements (getStatistics (run_ops (new_CodeIndexer h cfg) ops)) = length els)"
proof -
  let ?s = "run_ops (new_CodeIndexer h cfg) ops"
  have inv: "in_sync (index ?s)"
    by (rule in_sync_run_ops) (rule in_sync_new)
  have "set (map fst (elements (index ?s))) = set (map fst (files (index ?s)))"
    using in_sync_keys [OF inv] by simp
  then have "fst ` set (files (index ?s)) = fst ` set (elements (index ?s))"
    by simp
  then show ?thesis
    using in_sync_lookup [OF inv] in_sync_counts [OF inv] by blast
qed

lemma length_big_elements: "length big_elements = 170000"
  by (simp only: big_elements_def length_map length_upt diff_zero)

lemma indexed_big:
  "files (index (run_ops (new_CodeIndexer host_big config_default)
                   [IndexFile host_big ''src/big.ts'']))
     = [(''src/big.ts'',
         \<lparr>fi_filePath = ''src/big.ts'', fi_language = ''typescript'',
          fi_elements = big_elements, lastModified = 1700000000003,
          hash = show_int 1700000000003 @ ''-''
                   @ show_nat (length big_content)\<rparr>)]
   \<and> elements (index (run_ops (new_CodeIndexer host_big config_default)
                         [IndexFile host_big ''src/big.ts'']))
     = [(''src/big.ts'', big_elements)]"
  by (simp add: run_ops_def indexFile_def indexFile_try_def calculateFileHash_def host_big_def
      new_CodeIndexer_def config_default_def file_stats_def Let_def)

lemma length_big_content: "length big_content = 1020000"
  by (simp add: big_content_def length_concat sum_list_replicate)

text \<open>
  Claim C8 says that after every sequence of \<open>indexFile\<close> and \<open>removeFile\<close> calls on a
  new indexer the two maps agree (which the lemma above shows) and that the total count
  of \<open>getStatistics\<close> is therefore the length of the list \<open>getAllElements\<close> returns.
  \<open>getAllElements\<close> need not return a list. After \<open>indexFile\<close> on one file of 170000
  declarations, a file below the default \<open>maxFileSize\<close>, \<open>getStatistics\<close> counts
  170000 declarations, and \<open>getAllElements\<close> throws a \<open>RangeError\<close> on every engine
  that accepts fewer than 170000 arguments in one call.
\<close>

theorem getAllElements_overflow:
  assumes "m < 170000"
  shows "getAllElements m (run_ops (new_CodeIndexer host_big config_default)
                             [IndexFile host_big ''src/big.ts''])
           = Inl (RangeError ''Maximum call stack size exceeded'')
         \<and> totalElements (getStatistics (run_ops (new_CodeIndexer host_big config_default)
                                           [IndexFile host_big ''src/big.ts''])) = 170000"
proof -
  let ?s = "run_ops (new_CodeIndexer host_big config_default) [IndexFile host_big ''src/big.ts'']"
  have "getAllElements m ?s = Inl (RangeError ''Maximum call stack size exceeded'')"
    using assms indexed_big
    by (simp add: getAllElements_def push_spread_def length_big_elements)
  moreover have "totalElements (getStatistics ?s) = 170000"
    using indexed_big by (simp add: totalElements_eq length_big_elements)
  ultimately show ?thesis by simp
qed

theorem getAllElements_overflow_witness:
  "getAllElements 125000 (run_ops (new_CodeIndexer host_big config_default)
                             [IndexFile host_big ''src/big.ts''])
     = Inl (RangeError ''Maximum call stack size exceeded'')
   \<and> totalElements (getStatistics (run_ops (new_CodeIndexer host_big config_default)
                                     [IndexFile host_big ''src/big.ts''])) = 170000
   \<and> int (st_size (projr (statSync host_big ''src/big.ts''))) \<le> maxFileSize config_default"
proof -
  have "int (st_size (projr (statSync host_big ''src/big.ts''))) \<le> maxFileSize config_default"
    by (simp add: host_big_def file_stats_def config_default_def)
  then show ?thesis
    using getAllElements_overflow [of 125000] by simp
qed

lemma index_files_returns: "\<exists>s'. index_files h paths s = Inr s'"
proof (induction paths arbitrary: s)
  case Nil
  show ?case by simp
next
  case (Cons path paths)
  obtain s1 where "indexFile h path s = Inr s1"
    using indexFile_returns by blast
  then show ?case
    using Cons.IH [of s1] by simp
qed

lemma traverse_unreadable:
  "isl (readdirSync h dir) \<Longrightarrow> traverse (Suc n) h cfg dir found = Some found"
  by (auto simp: isl_def)

lemma indexWorkspace_completes:
  assumes "findCodeFiles depth h (config s) rootPath = Some found"
  shows "\<exists>s'. indexWorkspace depth h rootPath s = Some (Inr s')"
proof -
  obtain s1 where "index_files h found s = Inr s1"
    using index_files_returns by blast
  then show ?thesis
    using assms by (simp add: indexWorkspace_def Let_def)
qed

lemma indexWorkspace_not_error:
  assumes "indexWorkspace depth h rootPath s = Some r"
  shows "\<not> isl r"
proof (cases "findCodeFiles depth h (config s) rootPath")
  case None
  then show ?thesis
    using assms by (simp add: indexWorkspace_def)
next
  case (Some found)
  then obtain s' where "indexWorkspace depth h rootPath s = Some (Inr s')"
    using indexWorkspace_completes by blast
  then show ?thesis
    using assms by auto
qed

lemma indexWorkspace_unreadable_root:
  assumes "isl (readdirSync h rootPath)"
  shows "\<exists>s'. indexWorkspace (Suc n) h rootPath s = Some (Inr s')
              \<and> files (index s') = files (index s)
              \<and> elements (index s') = elements (index s)
              \<and> parseCalls s' = parseCalls s"
proof -
  have "findCodeFiles (Suc n) h (config s) rootPath = Some []"
    unfolding findCodeFiles_def using assms by (rule traverse_unreadable)
  then show ?thesis
    by (simp add: indexWorkspace_def Let_def setupFileWatcher_def)
qed

lemma traverse_items_returns:
  assumes IH: "\<And>dir found. nests_within n h dir \<Longrightarrow> \<exists>r. traverse n h cfg dir found = Some r"
    and "list_all (\<lambda>item.
              case statSync h (path_join h d item) of Inl err \<Rightarrow> True
              | Inr stats \<Rightarrow> st_isDirectory stats \<longrightarrow> nests_within n h (path_join h d item))
            items"
  shows "\<exists>r. traverse_items n h cfg d items found = Some r"
  using assms(2)
proof (induction items arbitrary: found)
  case Nil
  show ?case by simp
next
  case (Cons item items)
  have rest: "\<exists>r. traverse_items n h cfg d items found' = Some r" for found'
    using Cons by simp
  show ?case
  proof (cases "statSync h (path_join h d item)")
    case (Inl err)
    then show ?thesis by simp
  next
    case (Inr stats)
    show ?thesis
    proof (cases "st_isDirectory stats")
      case True
      then have "nests_within n h (path_join h d item)"
        using Cons.prems Inr by simp
      then obtain found1 where "traverse n h cfg (path_join h d item) found = Some found1"
        using IH by blast
      then show ?thesis
        using Inr True rest [of found] rest [of found1]
        by (auto simp: Let_def split: sum.splits)
    next
      case False
      then show ?thesis
        using Inr rest [of found] rest [of "found @ [path_join h d item]"]
        by (auto simp: Let_def split: sum.splits)
    qed
  qed
qed

lemma traverse_returns:
  "nests_within depth h dir \<Longrightarrow> \<exists>r. traverse depth h cfg dir found = Some r"
proof (induction depth arbitrary: dir found)
  case 0
  then show ?case by simp
next
  case (Suc n)
  show ?case
  proof (cases "readdirSync h dir")
    case (Inl err)
    then show ?thesis by simp
  next
    case (Inr items)
    then have "list_all (\<lambda>item.
              case statSync h (path_join h dir item) of Inl err \<Rightarrow> True
              | Inr stats \<Rightarrow> st_isDirectory stats \<longrightarrow> nests_within n h (path_join h dir item))
            items"
      using Suc.prems by simp
    then obtain r where "traverse_items n h cfg dir items found = Some r"
      using traverse_items_returns [of n h cfg dir items found] Suc.IH by blast
    then show ?thesis
      using Inr by (cases r) simp
  qed
qed

lemma indexFile_keeps_failing:
  assumes "isl (statSync h p) \<or> isl (readFileSync h p)"
    and "indexFile h q s = Inr s'"
  shows "map_of (files (index s')) p = map_of (files (index s)) p
         \<and> map_of (elements (index s')) p = map_of (elements (index s)) p"
proof -
  have s': "s' = snd (indexFile_try h q s)"
    using assms(2) by (simp add: indexFile_snd)
  show ?thesis
  proof (cases "q = p")
    case True
    have "isl (statSync h p) \<or> isl (readFileSync h p) \<or> isl (parseFile h p)"
      using assms(1) by blast
    then have "index (snd (indexFile_try h p s)) = index s"
      by (rule indexFile_failure_index)
    then show ?thesis
      using s' True by simp
  next
    case False
    show ?thesis
    proof (cases rule: indexFile_try_index [of h q s])
      case same
      then show ?thesis using s' by simp
    next
      case (stored fi)
      then show ?thesis
        using s' False by (simp add: update_conv')
    qed
  qed
qed

lemma index_files_keeps_failing:
  assumes "isl (statSync h p) \<or> isl (readFileSync h p)"
    and "index_files h paths s = Inr s'"
  shows "map_of (files (index s')) p = map_of (files (index s)) p
         \<and> map_of (elements (index s')) p = map_of (elements (index s)) p"
  using assms(2)
proof (induction paths arbitrary: s)
  case Nil
  then show ?case by simp
next
  case (Cons q paths)
  obtain s1 where s1: "indexFile h q s = Inr s1"
    using indexFile_returns by blast
  then have "index_files h paths s1 = Inr s'"
    using Cons.prems by simp
  then have "map_of (files (index s')) p = map_of (files (index s1)) p
             \<and> map_of (elements (index s')) p = map_of (elements (index s1)) p"
    by (rule Cons.IH)
  then show ?case
    using indexFile_keeps_failing [OF assms(1) s1] by simp
qed

lemma indexWorkspace_skips_failing:
  assumes "indexWorkspace depth h rootPath s = Some (Inr s')"
    and "isl (statSync h p) \<or> isl (readFileSync h p)"
  shows "map_of (files (index s')) p = map_of (files (index s)) p
         \<and> map_of (elements (index s')) p = map_of (elements (index s)) p"
proof -
  from assms(1) obtain found s1 where "index_files h found s = Inr s1"
    and s': "s' = (if watchFiles (config s1) then setupFileWatcher rootPath s1 else s1)
                   \<lparr>index := (index (if watchFiles (config s1) then setupFileWatcher rootPath s1
                                        else s1))\<lparr>lastUpdated := now h\<rparr>\<rparr>"
    by (auto simp: indexWorkspace_def Let_def split: option.splits sum.splits)
  then have "map_of (files (index s1)) p = map_of (files (index s)) p
             \<and> map_of (elements (index s1)) p = map_of (elements (index s)) p"
    using index_files_keeps_failing [OF assms(2)] by blast
  then show ?thesis
    unfolding s' by (simp add: setupFileWatcher_def)
qed

lemma indexWorkspace_returns:
  assumes "nests_within depth h rootPath"
  shows "\<exists>s'. indexWorkspace depth h rootPath s = Some (Inr s')"
proof -
  obtain found where "findCodeFiles depth h (config s) rootPath = Some found"
    unfolding findCodeFiles_def using traverse_returns [OF assms] by blast
  then show ?thesis
    by (rule indexWorkspace_completes)
qed

lemma traverse_more_depth:
  "traverse n h cfg dir found = Some r \<Longrightarrow> traverse (Suc n) h cfg dir found = Some r"
  "traverse_items n h cfg dir items found = Some q
     \<Longrightarrow> traverse_items (Suc n) h cfg dir items found = Some q"
proof (induction n h cfg dir found and n h cfg dir items found
       arbitrary: r and q rule: traverse_traverse_items.induct)
  case (1 h cfg dir found)
  then show ?case by simp
next
  case (2 n h cfg dir found)
  show ?case
  proof (cases "readdirSync h dir")
    case (Inl err)
    then show ?thesis using "2.prems" by simp
  next
    case (Inr items)
    then obtain q where q: "traverse_items n h cfg dir items found = Some q" and "r = snd q"
      using "2.prems" by (auto split: option.splits)
    then have "traverse_items (Suc n) h cfg dir items found = Some q"
      using "2.IH" Inr by blast
    then show ?thesis
      using Inr \<open>r = snd q\<close> by (simp add: split_def)
  qed
next
  case (3 n h cfg dir found)
  then show ?case by simp
next
  case (4 n h cfg dir item items found)
  show ?case
  proof (cases "statSync h (path_join h dir item)")
    case (Inl err)
    then show ?thesis using "4.prems" by simp
  next
    case (Inr stats)
    show ?thesis
    proof (cases "st_isDirectory stats")
      case dir: True
      show ?thesis
      proof (cases "shouldExcludeDirectory h cfg (path_join h dir item)")
        case (Inl err)
        then show ?thesis using "4.prems" Inr dir by simp
      next
        case excl: (Inr excluded)
        show ?thesis
        proof (cases excluded)
          case True
          then show ?thesis
            using "4.prems" "4.IH"(1) [OF refl Inr dir excl] Inr dir excl by simp
        next
          case False
          then obtain found1 where f1: "traverse n h cfg (path_join h dir item) found = Some found1"
            and rest: "traverse_items n h cfg dir items found1 = Some q"
            using "4.prems" Inr dir excl by (auto split: option.splits)
          have "traverse (Suc n) h cfg (path_join h dir item) found = Some found1"
            using "4.IH"(2) [OF refl Inr dir excl False f1] .
          moreover have "traverse_items (Suc n) h cfg dir items found1 = Some q"
            using "4.IH"(3) [OF refl Inr dir excl False f1 rest] .
          ultimately show ?thesis
            using Inr dir excl False by simp
        qed
      qed
    next
      case nodir: False
      show ?thesis
        using "4.prems" "4.IH"(4-) Inr nodir
        by (auto simp: Let_def split: sum.splits if_splits)
    qed
  qed
qed

lemma indexWorkspace_more_depth:
  assumes "indexWorkspace depth h rootPath s = Some r"
  shows "indexWorkspace (Suc depth) h rootPath s = Some r"
proof -
  from assms obtain found where f: "findCodeFiles depth h (config s) rootPath = Some found"
    by (auto simp: indexWorkspace_def split: option.splits)
  then have "findCodeFiles (Suc depth) h (config s) rootPath = Some found"
    unfolding findCodeFiles_def by (rule traverse_more_depth(1))
  then show ?thesis
    using assms f by (simp add: indexWorkspace_def)
qed

text \<open>
  Claim C9, as amended. When the workspace root cannot be read, \<open>indexWorkspace\<close> does
  not pass the failure on: the traversal catches it, no file is indexed, and the call
  completes normally. On every workspace whose directories nest finitely deep (the depth
  given to the traversal suffices) \<open>indexWorkspace\<close> completes normally whatever \<open>stat\<close>,
  read or parse failures it meets, and a file whose \<open>stat\<close> or read fails is skipped:
  what the index holds for its path is what it held before the call. No completed call
  of \<open>indexWorkspace\<close> ends in an exception, and a call that completes within one depth
  completes with the same result within any greater depth.
\<close>

theorem indexWorkspace_absorbs_failures:
  "(isl (readdirSync h rootPath)
      \<longrightarrow> (\<exists>s'. indexWorkspace (Suc n) h rootPath s = Some (Inr s')
                \<and> files (index s') = files (index s)
                \<and> elements (index s') = elements (index s)
                \<and> parseCalls s' = parseCalls s))
   \<and> (nests_within depth h rootPath
        \<longrightarrow> (\<exists>s'. indexWorkspace depth h rootPath s = Some (Inr s')
                  \<and> (\<forall>p. isl (statSync h p) \<or> isl (readFileSync h p)
                        \<longrightarrow> map_of (files (index s')) p = map_of (files (index s)) p
                            \<and> map_of (elements (index s')) p
                                = map_of (elements (index s)) p)))
   \<and> (\<forall>r. indexWorkspace depth h rootPath s = Some r
         \<longrightarrow> \<not> isl r \<and> indexWorkspace (Suc depth) h rootPath s = Some r)"
proof -
  have two: "\<exists>s'. indexWorkspace depth h rootPath s = Some (Inr s')
                  \<and> (\<forall>p. isl (statSync h p) \<or> isl (readFileSync h p)
                        \<longrightarrow> map_of (files (index s')) p = map_of (files (index s)) p
                            \<and> map_of (elements (index s')) p
                                = map_of (elements (index s)) p)"
    if nw: "nests_within depth h rootPath"
  proof -
    obtain s' where s': "indexWorkspace depth h rootPath s = Some (Inr s')"
      using indexWorkspace_returns [OF nw] by blast
    then show ?thesis
      using indexWorkspace_skips_failing [OF s'] by blast
  qed
  show ?thesis
    using indexWorkspace_unreadable_root [of h rootPath n s] two
      indexWorkspace_not_error [of depth h rootPath s]
      indexWorkspace_more_depth [of depth h rootPath s]
    by blast
qed

theorem indexWorkspace_absorbs_failures_witness:
  "isl (readdirSync host_no_root ''/missing'')
   \<and> map_option isl
        (indexWorkspace 1 host_no_root ''/missing'' (new_CodeIndexer host_no_root config_default))
      = Some False
   \<and> nests_within 2 host_tree ''app''
   \<and> isl (readFileSync host_tree ''app/locked.ts'')
   \<and> map_option (\<lambda>r. map fst (files (index (projr r))))
        (indexWorkspace 2 host_tree ''app'' (new_CodeIndexer host_tree config_default))
      = Some [''app/lib/util.ts'', ''app/main.ts'']
   \<and> map_option (\<lambda>r. map_option hash (map_of (files (index (projr r))) ''app/locked.ts''))
        (indexWorkspace 2 host_tree ''app'' (new_CodeIndexer host_tree config_default))
      = Some None
   \<and> map_option isl
        (indexWorkspace 3 host_tree ''app'' (new_CodeIndexer host_tree config_default))
      = Some False
   \<and> indexWorkspace 1 host_tree ''app'' (new_CodeIndexer host_tree config_default) = None"
proof -
  let ?s0 = "new_CodeIndexer host_no_root config_default"
  let ?s1 = "new_CodeIndexer host_tree config_default"
  have a: "isl (readdirSync host_no_root ''/missing'')"
    by code_simp
  then obtain s' where "indexWorkspace (Suc 0) host_no_root ''/missing'' ?s0 = Some (Inr s')"
    using indexWorkspace_absorbs_failures [of host_no_root "''/missing''" 0 ?s0] by blast
  then have b: "map_option isl (indexWorkspace 1 host_no_root ''/missing'' ?s0) = Some False"
    by simp
  have c: "nests_within 2 host_tree ''app''"
    by code_simp
  have d: "isl (readFileSync host_tree ''app/locked.ts'')"
    by code_simp
  have e: "map_option (\<lambda>r. map fst (files (index (projr r))))
             (indexWorkspace 2 host_tree ''app'' ?s1) = Some [''app/lib/util.ts'', ''app/main.ts'']"
    by code_simp
  have none: "map_of (files (index ?s1)) ''app/locked.ts'' = None"
    by (simp add: new_CodeIndexer_def)
  from c obtain s2 where s2: "indexWorkspace 2 host_tree ''app'' ?s1 = Some (Inr s2)"
    and "map_of (files (index s2)) ''app/locked.ts'' = map_of (files (index ?s1)) ''app/locked.ts''"
    using indexWorkspace_absorbs_failures [of host_tree "''app''" 0 ?s1 2] d by blast
  then have f: "map_option (\<lambda>r. map_option hash (map_of (files (index (projr r))) ''app/locked.ts''))
                  (indexWorkspace 2 host_tree ''app'' ?s1) = Some None"
    using none by simp
  have "indexWorkspace (Suc 2) host_tree ''app'' ?s1 = Some (Inr s2)"
    using indexWorkspace_absorbs_failures [of host_tree "''app''" 0 ?s1 2] s2 by blast
  then have g: "map_option isl (indexWorkspace 3 host_tree ''app'' ?s1) = Some False"
    by (simp add: eval_nat_numeral)
  have h: "indexWorkspace 1 host_tree ''app'' ?s1 = None"
    by code_simp
  show ?thesis
    using a b c d e f g h by blast
qed

text \<open>
  On a host whose workspace root does not exist the call returns normally: the indexer
  is the new one, with the file watcher set up.
\<close>

theorem indexWorkspace_surfaces_root_failure_counterexample:
  "isl (readdirSync host_no_root ''/missing'')
   \<and> indexWorkspace 1 host_no_root ''/missing'' (new_CodeIndexer host_no_root config_default)
     = Some (Inr ((new_CodeIndexer host_no_root config_default)\<lparr>fileWatcher := Some ''/missing''\<rparr>))"
  by code_simp

end
